theory Spec2Isabelle
  imports Main "HOL-Library.Word"
begin

section \<open>Data model of the firmware\<close>

text \<open>
  The repository holds two variants of one Arduino sketch for an M5Atom (ESP32):
  \<^item> \<^verbatim>\<open>src/app.ino\<close>, the bounded-attempts firmware (three automatic retries, 3000 ms apart);
  \<^item> \<^verbatim>\<open>unnamed/part_000\<close>, the timeout-window firmware (one window of 5000 ms).
  Both keep the whole device state in global variables, mutated by \<^verbatim>\<open>setup()\<close>, by
  \<^verbatim>\<open>loop()\<close> (the control loop) and by \<^verbatim>\<open>apiTaskFunction\<close> (the FreeRTOS worker task).
  The globals become a record that every function takes and returns. On the ESP32
  \<^verbatim>\<open>unsigned long\<close> and \<^verbatim>\<open>int\<close> are 32 bits wide: times are 32-bit words whose subtraction
  wraps around, the retry counter is a 32-bit word compared as a signed value.
\<close>

datatype DeviceState =
    INITIALIZING
  | TASK_PENDING
  | API_REQUEST_PENDING
  | API_CONNECTING
  | EFFECT_SUCCESS
  | TASK_COMPLETED
  | ERROR_RETRYING
  | ERROR_FAILED

type_synonym ulong = "32 word"
type_synonym cint = "32 word"

text \<open>
  The globals of the timeout-window firmware. \<open>apiTaskHandle\<close> holds whether the handle is
  not \<^verbatim>\<open>NULL\<close>. The display bookkeeping (\<^verbatim>\<open>previousState\<close>, \<^verbatim>\<open>previousDisplayState\<close>) only
  selects what is drawn and is left out.
\<close>

record globals =
  currentState :: DeviceState
  animationStartTime :: ulong
  apiTaskHandle :: bool
  apiRequestPending :: bool
  newTargetTaskState :: bool
  apiResultSuccess :: bool
  apiResultReceived :: bool
  midnightResetExecuted :: bool
  lastResetDay :: int

text \<open>The bounded-attempts firmware adds the two retry variables.\<close>

record retry_globals = globals +
  errorRetryAttemptCount :: cint
  lastApiRetryAttemptTime :: ulong

definition SUCCESS_EFFECT_DURATION :: ulong where
  "SUCCESS_EFFECT_DURATION = 1000"

definition MAX_API_UPDATE_RETRIES :: cint where
  "MAX_API_UPDATE_RETRIES = 3"

definition API_UPDATE_RETRY_INTERVAL_MS :: ulong where
  "API_UPDATE_RETRY_INTERVAL_MS = 3000"

text \<open>The initial values of the globals, as their declarations give them.\<close>

definition initial_globals :: retry_globals where
  "initial_globals =
     \<lparr> currentState = INITIALIZING, animationStartTime = 0, apiTaskHandle = False,
       apiRequestPending = False, newTargetTaskState = False, apiResultSuccess = False,
       apiResultReceived = False, midnightResetExecuted = False, lastResetDay = - 1,
       errorRetryAttemptCount = 0, lastApiRetryAttemptTime = 0 \<rparr>"

section \<open>What one pass of the control loop reads from outside\<close>

text \<open>
  Every call of the sketch into the hardware or the network is an input of the pass:
  \<^item> \<open>millisLoop\<close>: \<^verbatim>\<open>currentTime = millis()\<close> at the top of \<^verbatim>\<open>loop()\<close>;
  \<^item> \<open>millisSuccessEffect\<close>, \<open>millisConnecting\<close>: the later readings of \<^verbatim>\<open>millis()\<close> inside
    \<^verbatim>\<open>startSuccessEffect()\<close> and \<^verbatim>\<open>startApiConnectingAnimation()\<close>;
  \<^item> \<open>btnWasPressed\<close>: \<^verbatim>\<open>M5.Btn.wasPressed()\<close>;
  \<^item> \<open>ensureWiFi\<close>: what \<^verbatim>\<open>ensureWiFiConnected()\<close> returns if the recovery branch calls it;
  \<^item> \<open>fetchInitial\<close>: what \<^verbatim>\<open>getInitialTaskState\<close> does if it is called: \<open>None\<close> when it
    returns false, \<open>Some b\<close> when it returns true with \<open>b\<close> stored in its result parameter;
  \<^item> \<open>wifiConnected\<close>: \<^verbatim>\<open>WiFi.status() == WL_CONNECTED\<close> in the reset block;
  \<^item> \<open>isTimeSet\<close>, \<open>getDay\<close>, \<open>getHours\<close>, \<open>getMinutes\<close>, \<open>getSeconds\<close>: the NTP client.
\<close>

record tick_env =
  millisLoop :: ulong
  millisSuccessEffect :: ulong
  millisConnecting :: ulong
  btnWasPressed :: bool
  ensureWiFi :: bool
  fetchInitial :: "bool option"
  wifiConnected :: bool
  isTimeSet :: bool
  getDay :: int
  getHours :: int
  getMinutes :: int
  getSeconds :: int

section \<open>The control loop of the bounded-attempts firmware\<close>

text \<open>
  \<^verbatim>\<open>loop()\<close> is a sequence of six blocks; each is one function here, in the order of the
  source. The first block consumes the result of the worker task.
\<close>

definition processApiResult :: "tick_env \<Rightarrow> retry_globals \<Rightarrow> retry_globals" where
  "processApiResult e s =
     (if apiResultReceived s then
        (if currentState s = API_CONNECTING then
           (if apiResultSuccess s then
              s\<lparr> currentState := EFFECT_SUCCESS,
                 animationStartTime := millisSuccessEffect e,
                 errorRetryAttemptCount := 0 \<rparr>
            else
              s\<lparr> currentState := ERROR_RETRYING,
                 lastApiRetryAttemptTime := millisLoop e,
                 animationStartTime := millisLoop e \<rparr>)
         else s) \<lparr> apiResultReceived := False \<rparr>
      else s)"

text \<open>The recovery branch of the button block (state \<open>ERROR_FAILED\<close> or \<open>ERROR_RETRYING\<close>).\<close>

definition recoverFromError :: "tick_env \<Rightarrow> retry_globals \<Rightarrow> retry_globals" where
  "recoverFromError e s =
     (let stateBeforeRecoveryAttempt = currentState s in
      if ensureWiFi e then
        (case fetchInitial e of
           Some fetchedState \<Rightarrow>
             (let s' = s\<lparr> currentState := (if fetchedState then TASK_COMPLETED else TASK_PENDING) \<rparr>
              in if stateBeforeRecoveryAttempt = ERROR_RETRYING
                 then s'\<lparr> errorRetryAttemptCount := 0 \<rparr> else s')
         | None \<Rightarrow> s\<lparr> currentState := ERROR_FAILED \<rparr>)
      else s\<lparr> currentState := ERROR_FAILED \<rparr>)"

definition processButton :: "tick_env \<Rightarrow> retry_globals \<Rightarrow> retry_globals" where
  "processButton e s =
     (if btnWasPressed e \<and> apiTaskHandle s \<and> \<not> apiRequestPending s then
        (if currentState s = TASK_PENDING then
           s\<lparr> newTargetTaskState := True, apiRequestPending := True,
              errorRetryAttemptCount := 0, currentState := API_REQUEST_PENDING \<rparr>
         else if currentState s = TASK_COMPLETED then
           s\<lparr> newTargetTaskState := False, apiRequestPending := True,
              errorRetryAttemptCount := 0, currentState := API_REQUEST_PENDING \<rparr>
         else if currentState s = ERROR_FAILED \<or> currentState s = ERROR_RETRYING then
           recoverFromError e s
         else s)
      else s)"

text \<open>\<open>API_REQUEST_PENDING\<close> to \<open>API_CONNECTING\<close>; the same code in both variants.\<close>

definition handoff :: "tick_env \<Rightarrow> 'a globals_scheme \<Rightarrow> 'a globals_scheme" where
  "handoff e s =
     (if currentState s = API_REQUEST_PENDING \<and> apiRequestPending s then
        s\<lparr> currentState := API_CONNECTING, animationStartTime := millisConnecting e \<rparr>
      else s)"

text \<open>The two time-based exits. The subtractions are on \<^verbatim>\<open>unsigned long\<close> and wrap.\<close>

definition successExit :: "tick_env \<Rightarrow> retry_globals \<Rightarrow> retry_globals" where
  "successExit e s =
     (if currentState s = EFFECT_SUCCESS
         \<and> millisLoop e - animationStartTime s > SUCCESS_EFFECT_DURATION then
        s\<lparr> currentState := (if newTargetTaskState s then TASK_COMPLETED else TASK_PENDING) \<rparr>
      else s)"

definition retryExit :: "tick_env \<Rightarrow> retry_globals \<Rightarrow> retry_globals" where
  "retryExit e s =
     (if currentState s = ERROR_RETRYING then
        (if errorRetryAttemptCount s <s MAX_API_UPDATE_RETRIES then
           (if millisLoop e - lastApiRetryAttemptTime s \<ge> API_UPDATE_RETRY_INTERVAL_MS then
              s\<lparr> apiRequestPending := True, currentState := API_REQUEST_PENDING,
                 lastApiRetryAttemptTime := millisLoop e,
                 errorRetryAttemptCount := errorRetryAttemptCount s + 1 \<rparr>
            else s)
         else s\<lparr> currentState := ERROR_FAILED \<rparr>)
      else s)"

text \<open>
  The daily reset block. \<open>resetWindow\<close> is the test on the wall clock (15:01:00 to 15:01:09
  UTC), \<open>resetDue\<close> the whole condition under which the block requests the reset.
\<close>

definition resetWindow :: "tick_env \<Rightarrow> bool" where
  "resetWindow e = (getHours e = 15 \<and> getMinutes e = 1 \<and> getSeconds e < 10)"

definition resetDue :: "tick_env \<Rightarrow> 'a globals_scheme \<Rightarrow> bool" where
  "resetDue e s =
     (wifiConnected e \<and> isTimeSet e \<and> resetWindow e
      \<and> (\<not> midnightResetExecuted s \<or> lastResetDay s \<noteq> getDay e))"

definition midnightReset :: "tick_env \<Rightarrow> retry_globals \<Rightarrow> retry_globals" where
  "midnightReset e s =
     (if wifiConnected e \<and> isTimeSet e then
        (let currentDay = getDay e in
         if getHours e = 15 \<and> getMinutes e = 1 \<and> getSeconds e < 10 then
           (if \<not> midnightResetExecuted s \<or> lastResetDay s \<noteq> currentDay then
              s\<lparr> newTargetTaskState := False, apiRequestPending := True,
                 errorRetryAttemptCount := 0, currentState := API_REQUEST_PENDING,
                 midnightResetExecuted := True, lastResetDay := currentDay \<rparr>
            else s)
         else s\<lparr> midnightResetExecuted := False \<rparr>)
      else s)"

text \<open>One pass of \<^verbatim>\<open>loop()\<close>: the blocks before the reset block, then the reset block.\<close>

definition beforeReset :: "tick_env \<Rightarrow> retry_globals \<Rightarrow> retry_globals" where
  "beforeReset e s =
     retryExit e (successExit e (handoff e (processButton e (processApiResult e s))))"

definition loop :: "tick_env \<Rightarrow> retry_globals \<Rightarrow> retry_globals" where
  "loop e s = midnightReset e (beforeReset e s)"

section \<open>The worker task\<close>

text \<open>
  \<^verbatim>\<open>apiTaskFunction\<close> polls \<open>apiRequestPending\<close>; when it is set the task calls
  \<^verbatim>\<open>updateTaskOnApi(DEVICE_ID, newTargetTaskState)\<close>, which blocks for the HTTP round trip,
  and then writes the result, sets \<open>apiResultReceived\<close> and clears \<open>apiRequestPending\<close>.
  The task runs beside the control loop, so a pass of the loop can fall between the start
  of the call and its end. The task is therefore two steps: \<open>apiTask_take\<close> starts the
  call with the target it read, \<open>apiTask_done\<close> ends it with the outcome of the call.
  Steps of the task come between passes of the loop; a step in the middle of a pass is not
  part of the model.
\<close>

datatype worker = Idle | InCall bool

definition apiTask_take :: "'a globals_scheme \<Rightarrow> worker \<Rightarrow> worker" where
  "apiTask_take s w =
     (case w of
        Idle \<Rightarrow> if apiRequestPending s then InCall (newTargetTaskState s) else Idle
      | InCall t \<Rightarrow> InCall t)"

definition apiTask_done :: "bool \<Rightarrow> 'a globals_scheme \<Rightarrow> 'a globals_scheme" where
  "apiTask_done success s =
     s\<lparr> apiResultSuccess := success, apiResultReceived := True, apiRequestPending := False \<rparr>"

section \<open>Start-up\<close>

text \<open>
  \<^verbatim>\<open>setup()\<close> first waits for the WiFi connection: at most 100 rounds, each reading
  \<^verbatim>\<open>WiFi.status()\<close> once. \<open>wifiStatus e n\<close> is whether the reading number \<open>n\<close> of start-up
  is \<^verbatim>\<open>WL_CONNECTED\<close>; the loop returns the final value of \<^verbatim>\<open>attempt\<close>.
\<close>

record setup_env =
  wifiStatus :: "nat \<Rightarrow> bool"
  forceUpdate :: bool
  taskCreated :: bool
  fetchAtSetup :: "bool option"

function waitForWiFi :: "(nat \<Rightarrow> bool) \<Rightarrow> nat \<Rightarrow> nat" where
  "waitForWiFi st attempt =
     (if \<not> st attempt \<and> attempt < 100 then waitForWiFi st (attempt + 1) else attempt)"
  by pat_completeness auto
termination
  by (relation "measure (\<lambda>(st, attempt). 100 - attempt)") auto

text \<open>The reading of \<^verbatim>\<open>WiFi.status()\<close> that follows the loop decides the branch.\<close>

definition wifiUp :: "setup_env \<Rightarrow> bool" where
  "wifiUp e = wifiStatus e (Suc (waitForWiFi (wifiStatus e) 0))"

text \<open>
  \<open>setup_fw\<close> is \<^verbatim>\<open>setup()\<close>. With WiFi up it creates the worker task (\<open>taskCreated\<close>: the
  handle is not \<^verbatim>\<open>NULL\<close> afterwards), then fetches the task state; the NTP synchronisation
  (\<open>forceUpdate\<close>) changes no global.
\<close>

definition setup_fw :: "setup_env \<Rightarrow> retry_globals \<Rightarrow> retry_globals" where
  "setup_fw e s =
     (if wifiUp e then
        (let s1 = (if taskCreated e then s\<lparr> apiTaskHandle := True \<rparr>
                   else s\<lparr> currentState := ERROR_FAILED \<rparr>)
         in case fetchAtSetup e of
              Some initialTaskState \<Rightarrow>
                s1\<lparr> currentState := (if initialTaskState then TASK_COMPLETED else TASK_PENDING) \<rparr>
            | None \<Rightarrow> s1\<lparr> currentState := TASK_PENDING \<rparr>)
      else s\<lparr> currentState := ERROR_FAILED \<rparr>)"

section \<open>Executions\<close>

text \<open>
  An execution after start-up is a sequence of events: a pass of the control loop, the
  worker starting a call, the worker ending a call. The worker exists only if its
  creation succeeded.
\<close>

datatype event = Tick tick_env | TaskTake | TaskDone bool

fun step :: "event \<Rightarrow> retry_globals \<times> worker \<Rightarrow> retry_globals \<times> worker" where
  "step (Tick e) (s, w) = (loop e s, w)"
| "step TaskTake (s, w) = (if apiTaskHandle s then (s, apiTask_take s w) else (s, w))"
| "step (TaskDone success) (s, w) =
     (case w of InCall t \<Rightarrow> (apiTask_done success s, Idle) | Idle \<Rightarrow> (s, w))"

fun run :: "event list \<Rightarrow> retry_globals \<times> worker \<Rightarrow> retry_globals \<times> worker" where
  "run [] c = c"
| "run (ev # evs) c = run evs (step ev c)"

definition boot :: "setup_env \<Rightarrow> retry_globals \<times> worker" where
  "boot e = (setup_fw e initial_globals, Idle)"

section \<open>The control loop of the timeout-window firmware\<close>

text \<open>
  \<^verbatim>\<open>loop()\<close> of \<^verbatim>\<open>unnamed/part_000\<close>. It has no retry counter: a failed submission starts
  a window at \<open>animationStartTime\<close>, and the state \<open>ERROR_RETRYING\<close> ends in \<open>ERROR_FAILED\<close>
  once more than 5000 ms have passed. The recovery branch of the button calls
  \<^verbatim>\<open>getInitialTaskState\<close> directly.
\<close>

definition processApiResult_v :: "tick_env \<Rightarrow> globals \<Rightarrow> globals" where
  "processApiResult_v e s =
     (if apiResultReceived s then
        (if currentState s = API_CONNECTING then
           (if apiResultSuccess s then
              s\<lparr> currentState := EFFECT_SUCCESS, animationStartTime := millisSuccessEffect e \<rparr>
            else
              s\<lparr> currentState := ERROR_RETRYING, animationStartTime := millisLoop e \<rparr>)
         else s) \<lparr> apiResultReceived := False \<rparr>
      else s)"

definition processButton_v :: "tick_env \<Rightarrow> globals \<Rightarrow> globals" where
  "processButton_v e s =
     (if btnWasPressed e \<and> apiTaskHandle s \<and> \<not> apiRequestPending s then
        (if currentState s = TASK_PENDING then
           s\<lparr> newTargetTaskState := True, apiRequestPending := True,
              currentState := API_REQUEST_PENDING \<rparr>
         else if currentState s = TASK_COMPLETED then
           s\<lparr> newTargetTaskState := False, apiRequestPending := True,
              currentState := API_REQUEST_PENDING \<rparr>
         else if currentState s = ERROR_FAILED \<or> currentState s = ERROR_RETRYING then
           (case fetchInitial e of
              Some fetchedState \<Rightarrow>
                s\<lparr> currentState := (if fetchedState then TASK_COMPLETED else TASK_PENDING) \<rparr>
            | None \<Rightarrow> s\<lparr> currentState := ERROR_FAILED \<rparr>)
         else s)
      else s)"

definition successExit_v :: "tick_env \<Rightarrow> globals \<Rightarrow> globals" where
  "successExit_v e s =
     (if currentState s = EFFECT_SUCCESS \<and> millisLoop e - animationStartTime s > 2000 then
        s\<lparr> currentState := (if newTargetTaskState s then TASK_COMPLETED else TASK_PENDING) \<rparr>
      else s)"

definition retryTimeout_v :: "tick_env \<Rightarrow> globals \<Rightarrow> globals" where
  "retryTimeout_v e s =
     (if currentState s = ERROR_RETRYING \<and> millisLoop e - animationStartTime s > 5000 then
        s\<lparr> currentState := ERROR_FAILED \<rparr>
      else s)"

definition midnightReset_v :: "tick_env \<Rightarrow> globals \<Rightarrow> globals" where
  "midnightReset_v e s =
     (if wifiConnected e \<and> isTimeSet e then
        (let currentDay = getDay e in
         if getHours e = 15 \<and> getMinutes e = 1 \<and> getSeconds e < 10 then
           (if \<not> midnightResetExecuted s \<or> lastResetDay s \<noteq> currentDay then
              s\<lparr> newTargetTaskState := False, apiRequestPending := True,
                 currentState := API_REQUEST_PENDING,
                 midnightResetExecuted := True, lastResetDay := currentDay \<rparr>
            else s)
         else s\<lparr> midnightResetExecuted := False \<rparr>)
      else s)"

definition loop_v :: "tick_env \<Rightarrow> globals \<Rightarrow> globals" where
  "loop_v e s =
     midnightReset_v e
       (retryTimeout_v e (successExit_v e (handoff e (processButton_v e (processApiResult_v e s)))))"

text \<open>
  \<^verbatim>\<open>setup()\<close> of \<^verbatim>\<open>unnamed/part_000\<close> is the code of the other firmware, but for the wait for
  WiFi, which takes at most 20 rounds.
\<close>

function waitForWiFi_v :: "(nat \<Rightarrow> bool) \<Rightarrow> nat \<Rightarrow> nat" where
  "waitForWiFi_v st attempt =
     (if \<not> st attempt \<and> attempt < 20 then waitForWiFi_v st (attempt + 1) else attempt)"
  by pat_completeness auto
termination
  by (relation "measure (\<lambda>(st, attempt). 20 - attempt)") auto

definition wifiUp_v :: "setup_env \<Rightarrow> bool" where
  "wifiUp_v e = wifiStatus e (Suc (waitForWiFi_v (wifiStatus e) 0))"

definition setup_v :: "setup_env \<Rightarrow> globals \<Rightarrow> globals" where
  "setup_v e s =
     (if wifiUp_v e then
        (let s1 = (if taskCreated e then s\<lparr> apiTaskHandle := True \<rparr>
                   else s\<lparr> currentState := ERROR_FAILED \<rparr>)
         in case fetchAtSetup e of
              Some initialTaskState \<Rightarrow>
                s1\<lparr> currentState := (if initialTaskState then TASK_COMPLETED else TASK_PENDING) \<rparr>
            | None \<Rightarrow> s1\<lparr> currentState := TASK_PENDING \<rparr>)
      else s\<lparr> currentState := ERROR_FAILED \<rparr>)"

section \<open>Counting the firings of the daily reset\<close>

text \<open>
  \<open>runTicks\<close> is a sequence of passes of the control loop; \<open>resetFires\<close> counts the passes in
  which the reset block requests the reset, judged where the block stands: after the
  other blocks of that pass.
\<close>

fun runTicks :: "tick_env list \<Rightarrow> retry_globals \<Rightarrow> retry_globals" where
  "runTicks [] s = s"
| "runTicks (e # es) s = runTicks es (loop e s)"

fun resetFires :: "tick_env list \<Rightarrow> retry_globals \<Rightarrow> nat" where
  "resetFires [] s = 0"
| "resetFires (e # es) s =
     (if resetDue e (beforeReset e s) then 1 else 0) + resetFires es (loop e s)"

section \<open>Concrete inputs\<close>

text \<open>
  \<open>tick_at t btn d h m sec\<close> is a pass at \<open>t\<close> ms with WiFi up and the clock synchronised,
  on day \<open>d\<close> at \<open>h:m:sec\<close>; a recovery attempt in such a pass would fail at the fetch.
  \<open>boot_ok\<close> is a start-up in which WiFi connects at once, the worker is created and the
  fetched task state is "not done"; in \<open>boot_done\<close> it is "done", in \<open>boot_fetch_fails\<close> the
  fetch fails, in \<open>boot_no_wifi\<close> WiFi never connects.
\<close>

definition tick_at :: "ulong \<Rightarrow> bool \<Rightarrow> int \<Rightarrow> int \<Rightarrow> int \<Rightarrow> int \<Rightarrow> tick_env" where
  "tick_at t btn d h m sec =
     \<lparr> millisLoop = t, millisSuccessEffect = t, millisConnecting = t, btnWasPressed = btn,
       ensureWiFi = True, fetchInitial = None, wifiConnected = True, isTimeSet = True,
       getDay = d, getHours = h, getMinutes = m, getSeconds = sec \<rparr>"

definition initial_globals_v :: globals where
  "initial_globals_v =
     \<lparr> currentState = INITIALIZING, animationStartTime = 0, apiTaskHandle = False,
       apiRequestPending = False, newTargetTaskState = False, apiResultSuccess = False,
       apiResultReceived = False, midnightResetExecuted = False, lastResetDay = - 1 \<rparr>"

definition boot_ok :: setup_env where
  "boot_ok = \<lparr> wifiStatus = (\<lambda>n. True), forceUpdate = True, taskCreated = True,
               fetchAtSetup = Some False \<rparr>"

definition boot_done :: setup_env where
  "boot_done = \<lparr> wifiStatus = (\<lambda>n. True), forceUpdate = True, taskCreated = True,
                 fetchAtSetup = Some True \<rparr>"

definition boot_fetch_fails :: setup_env where
  "boot_fetch_fails = \<lparr> wifiStatus = (\<lambda>n. True), forceUpdate = True, taskCreated = True,
                        fetchAtSetup = None \<rparr>"

definition boot_no_wifi :: setup_env where
  "boot_no_wifi = \<lparr> wifiStatus = (\<lambda>n. False), forceUpdate = False, taskCreated = False,
                    fetchAtSetup = None \<rparr>"

section \<open>Observations on a pass and schedules of events\<close>

text \<open>
  \<open>enqueues e s\<close> counts the assignments \<^verbatim>\<open>apiRequestPending = true\<close> that the pass executes:
  one in the button block (states \<open>TASK_PENDING\<close> and \<open>TASK_COMPLETED\<close>), one in the retry
  block, one in the reset block. Each of them hands a request to the worker task.
\<close>

definition enqueues :: "tick_env \<Rightarrow> retry_globals \<Rightarrow> nat" where
  "enqueues e s =
     (let s1 = processApiResult e s;
          s4 = successExit e (handoff e (processButton e s1))
      in (if btnWasPressed e \<and> apiTaskHandle s1 \<and> \<not> apiRequestPending s1
             \<and> (currentState s1 = TASK_PENDING \<or> currentState s1 = TASK_COMPLETED)
          then 1 else 0)
       + (if currentState s4 = ERROR_RETRYING
             \<and> errorRetryAttemptCount s4 <s MAX_API_UPDATE_RETRIES
             \<and> millisLoop e - lastApiRetryAttemptTime s4 \<ge> API_UPDATE_RETRY_INTERVAL_MS
          then 1 else 0)
       + (if resetDue e (retryExit e s4) then 1 else 0))"

text \<open>
  A pass is outside the reset when the reset block does not see its window (WiFi down,
  clock not set, or a time outside 15:01:00 to 15:01:09); it is \<open>quiet\<close> when moreover the
  button was not pressed.
\<close>

definition outsideReset :: "tick_env \<Rightarrow> bool" where
  "outsideReset e = (\<not> (wifiConnected e \<and> isTimeSet e \<and> resetWindow e))"

definition quiet :: "tick_env \<Rightarrow> bool" where
  "quiet e = (\<not> btnWasPressed e \<and> outsideReset e)"

text \<open>
  One failed attempt and its retry: the call in flight ends in failure, pass \<open>f\<close> sees the
  failure, pass \<open>r\<close> comes when the retry interval is over, pass \<open>h\<close> hands the new request
  over, and the worker starts the next call.
\<close>

definition retryCycle :: "tick_env \<Rightarrow> tick_env \<Rightarrow> tick_env \<Rightarrow> event list" where
  "retryCycle f r h = [TaskDone False, Tick f, Tick r, Tick h, TaskTake]"

text \<open>
  The same attempt with the passes that lie in between: \<open>ws\<close> are the passes that wait in
  \<open>ERROR_RETRYING\<close> for the retry interval, \<open>cs\<close> the passes that wait in \<open>API_CONNECTING\<close>
  for the new call to end. \<open>waiting f ws\<close> says that the passes \<open>ws\<close> are quiet and come less
  than the retry interval after pass \<open>f\<close>; \<open>allQuiet cs\<close> that the passes \<open>cs\<close> are quiet.
\<close>

definition attempt ::
  "tick_env \<Rightarrow> tick_env list \<Rightarrow> tick_env \<Rightarrow> tick_env \<Rightarrow> tick_env list \<Rightarrow> event list" where
  "attempt f ws r h cs =
     [TaskDone False, Tick f] @ map Tick ws @ [Tick r, Tick h, TaskTake] @ map Tick cs"

definition waiting :: "tick_env \<Rightarrow> tick_env list \<Rightarrow> bool" where
  "waiting f ws =
     (\<forall>w\<in>set ws. quiet w \<and> millisLoop w - millisLoop f < API_UPDATE_RETRY_INTERVAL_MS)"

definition allQuiet :: "tick_env list \<Rightarrow> bool" where
  "allQuiet cs = (\<forall>c\<in>set cs. quiet c)"

text \<open>
  Concrete schedules, from the start-up \<open>boot_ok\<close> (task pending). The milliseconds and
  the wall clock advance together: 1000 ms is 12:00:00 in the schedules of the retries.
\<close>

definition press_and_call :: "event list" where
  "press_and_call = [Tick (tick_at 1000 True 3 12 0 0), TaskTake]"

definition three_failures :: "event list" where
  "three_failures =
     press_and_call
     @ retryCycle (tick_at 2000 False 3 12 0 1) (tick_at 5000 False 3 12 0 4)
                  (tick_at 5100 False 3 12 0 4)
     @ retryCycle (tick_at 6000 False 3 12 0 5) (tick_at 9000 False 3 12 0 8)
                  (tick_at 9100 False 3 12 0 8)
     @ [TaskDone False, Tick (tick_at 10000 False 3 12 0 9), Tick (tick_at 13000 False 3 12 0 12)]"

definition fail_and_give_up :: "event list" where
  "fail_and_give_up =
     press_and_call
     @ [TaskDone False, Tick (tick_at 2000 False 3 12 0 1), Tick (tick_at 2100 True 3 12 0 1)]"

text \<open>
  \<open>late_reset_tick\<close> is the pass at 15:01:05 of the day on which \<open>fail_and_give_up\<close> ran.
\<close>

definition late_reset_tick :: tick_env where
  "late_reset_tick = tick_at 10866100 False 3 15 1 5"

text \<open>
  A press one second before the reset window: the pass at 15:00:59 sees the button, the
  worker starts its call, and the passes \<open>reset_tick\<close> and \<open>after_reset_tick\<close> come at 15:01:00.
\<close>

definition press_before_reset :: "event list" where
  "press_before_reset = [Tick (tick_at 1000 True 3 15 0 59), TaskTake]"

definition reset_tick :: tick_env where
  "reset_tick = tick_at 2000 False 3 15 1 0"

definition after_reset_tick :: tick_env where
  "after_reset_tick = tick_at 2100 False 3 15 1 0"

text \<open>
  \<open>reset_during_call\<close>: the button is pressed, the worker starts the call for "done", the reset
  instant comes while the call is in flight, the call then succeeds and the success effect
  runs out. \<open>early_result\<close>: the first call fails, the retry block requests the retry, and
  the worker finishes the retried call before the next pass of the loop.
\<close>

definition reset_during_call :: "event list" where
  "reset_during_call =
     press_before_reset
     @ [Tick reset_tick, Tick after_reset_tick, TaskDone True,
        Tick (tick_at 2200 False 3 15 1 0), Tick (tick_at 3300 False 3 15 1 1)]"

definition early_result :: "event list" where
  "early_result =
     press_and_call
     @ [TaskDone False, Tick (tick_at 2000 False 3 12 0 1), Tick (tick_at 5000 False 3 12 0 4),
        TaskTake, TaskDone False, Tick (tick_at 5100 False 3 12 0 4)]"

text \<open>
  The clock crossing the reset window on day \<open>d\<close>: one pass at 15:00:59, then one pass in
  each second from 15:01:00 to 15:01:09, then one pass at 15:01:10.
\<close>

definition before_window :: "int \<Rightarrow> tick_env list" where
  "before_window d = [tick_at 59000 False d 15 0 59]"

definition after_window :: "int \<Rightarrow> tick_env list" where
  "after_window d = [tick_at 70000 False d 15 1 10]"

definition window_ticks :: "int \<Rightarrow> tick_env list" where
  "window_ticks d =
     [tick_at 60000 False d 15 1 0, tick_at 61000 False d 15 1 1, tick_at 62000 False d 15 1 2,
      tick_at 63000 False d 15 1 3, tick_at 64000 False d 15 1 4, tick_at 65000 False d 15 1 5,
      tick_at 66000 False d 15 1 6, tick_at 67000 False d 15 1 7, tick_at 68000 False d 15 1 8,
      tick_at 69000 False d 15 1 9]"

text \<open>
  \<open>replay_ticks\<close>: the wall clock of day \<open>d\<close> set back to 15:01:00 after the pass at 15:01:10,
  and running through the window once more.
\<close>

definition replay_ticks :: "int \<Rightarrow> tick_env list" where
  "replay_ticks d =
     [tick_at 71000 False d 15 1 0, tick_at 72000 False d 15 1 1, tick_at 73000 False d 15 1 2,
      tick_at 74000 False d 15 1 3, tick_at 75000 False d 15 1 4, tick_at 76000 False d 15 1 5,
      tick_at 77000 False d 15 1 6, tick_at 78000 False d 15 1 7, tick_at 79000 False d 15 1 8,
      tick_at 80000 False d 15 1 9]"

text \<open>
  \<open>success_before_handover\<close>: the first call fails, the retry block requests the retry, and
  the retried call succeeds before the next pass of the loop.
\<close>

definition success_before_handover :: "event list" where
  "success_before_handover =
     press_and_call
     @ [TaskDone False, Tick (tick_at 2000 False 3 12 0 1), Tick (tick_at 5000 False 3 12 0 4),
        TaskTake, TaskDone True, Tick (tick_at 5100 False 3 12 0 4)]"

text \<open>
  For the timeout-window firmware: \<open>retrying_v\<close> is the state after the start-up \<open>boot_ok\<close>, a
  pass at 15:00:58 with the button pressed, a call of the worker that fails and the pass at
  15:00:59 that sees the failure; \<open>reset_tick_v\<close> is the pass one second later.
\<close>

definition retrying_v :: globals where
  "retrying_v =
     loop_v (tick_at 2000 False 3 15 0 59)
       (apiTask_done False
          (loop_v (tick_at 1000 True 3 15 0 58) (setup_v boot_ok initial_globals_v)))"

definition reset_tick_v :: tick_env where
  "reset_tick_v = tick_at 3000 False 3 15 1 0"

section \<open>Evaluating concrete schedules\<close>

text \<open>
  The definitions to unfold when a schedule is evaluated by the simplifier, and the states
  of the concrete start-ups.
\<close>

lemmas const_defs = SUCCESS_EFFECT_DURATION_def MAX_API_UPDATE_RETRIES_def API_UPDATE_RETRY_INTERVAL_MS_def

lemmas block_defs = processApiResult_def processButton_def recoverFromError_def handoff_def
  successExit_def retryExit_def midnightReset_def

lemmas loop_defs = block_defs beforeReset_def loop_def

lemmas worker_defs = apiTask_take_def apiTask_done_def

lemmas trace_defs = press_and_call_def three_failures_def fail_and_give_up_def reset_tick_def
  late_reset_tick_def press_before_reset_def after_reset_tick_def reset_during_call_def
  early_result_def retryCycle_def tick_at_def

lemmas variant_defs = loop_v_def processApiResult_v_def processButton_v_def handoff_def
  successExit_v_def retryTimeout_v_def midnightReset_v_def

lemmas before_defs = beforeReset_def processApiResult_def processButton_def recoverFromError_def
  handoff_def successExit_def retryExit_def const_defs

lemma wifiUp_boot_ok: "wifiUp boot_ok" by (simp add: wifiUp_def boot_ok_def)

lemma wifiUp_boot_done: "wifiUp boot_done" by (simp add: wifiUp_def boot_done_def)

lemma wifiUp_boot_fetch_fails: "wifiUp boot_fetch_fails"
  by (simp add: wifiUp_def boot_fetch_fails_def)

lemma wifiUp_boot_no_wifi: "\<not> wifiUp boot_no_wifi"
  by (simp add: wifiUp_def boot_no_wifi_def)

lemma boot_ok_state:
  "boot boot_ok = (initial_globals\<lparr> apiTaskHandle := True, currentState := TASK_PENDING \<rparr>, Idle)"
  by (simp add: boot_def setup_fw_def wifiUp_boot_ok) (simp add: boot_ok_def)

lemma boot_done_state:
  "boot boot_done = (initial_globals\<lparr> apiTaskHandle := True, currentState := TASK_COMPLETED \<rparr>, Idle)"
  by (simp add: boot_def setup_fw_def wifiUp_boot_done) (simp add: boot_done_def)

lemmas eval_simps = boot_ok_state initial_globals_def trace_defs loop_defs const_defs worker_defs
  word_sless_alt resetDue_def resetWindow_def

lemma in_flight_state:
  "run press_and_call (boot boot_ok)
     = (initial_globals\<lparr> apiTaskHandle := True, currentState := API_CONNECTING,
          newTargetTaskState := True, apiRequestPending := True, animationStartTime := 1000 \<rparr>,
        InCall True)"
  by (simp add: eval_simps)

lemma quiet_tick_at:
  "quiet (tick_at t False d h m sec) \<longleftrightarrow> \<not> (h = 15 \<and> m = 1 \<and> sec < 10)"
  by (simp add: quiet_def outsideReset_def resetWindow_def tick_at_def)

lemma outside_tick_at:
  "outsideReset (tick_at t b d h m sec) \<longleftrightarrow> \<not> (h = 15 \<and> m = 1 \<and> sec < 10)"
  by (simp add: outsideReset_def resetWindow_def tick_at_def)

lemma run_append: "run (xs @ ys) c = run ys (run xs c)"
  by (induction xs arbitrary: c) simp_all

section \<open>Start-up\<close>

text \<open>
  Claim C3, as amended. The claim says that a failing initial fetch, with WiFi connected,
  takes the device from \<open>INITIALIZING\<close> to \<open>ERROR_FAILED\<close>. \<^verbatim>\<open>setup()\<close> does that only when
  WiFi did not connect. With WiFi connected and the worker created, the state after start-up
  follows the fetch: "done" gives \<open>TASK_COMPLETED\<close>, "not done" gives \<open>TASK_PENDING\<close>, and a
  failed fetch gives \<open>TASK_PENDING\<close> as well (the sketch logs "Defaulting to PENDING").
\<close>

theorem setup_outcome:
  "(\<not> wifiUp e \<longrightarrow> currentState (setup_fw e s) = ERROR_FAILED)
   \<and> (wifiUp e \<and> taskCreated e \<longrightarrow>
        currentState (setup_fw e s)
          = (case fetchAtSetup e of
               None \<Rightarrow> TASK_PENDING
             | Some done \<Rightarrow> if done then TASK_COMPLETED else TASK_PENDING))"
  by (simp add: setup_fw_def Let_def split: option.splits)

theorem setup_outcome_witness:
  "\<not> wifiUp boot_no_wifi
   \<and> currentState (setup_fw boot_no_wifi initial_globals) = ERROR_FAILED
   \<and> wifiUp boot_done \<and> taskCreated boot_done
   \<and> currentState (setup_fw boot_done initial_globals) = TASK_COMPLETED
   \<and> wifiUp boot_fetch_fails \<and> taskCreated boot_fetch_fails
   \<and> currentState (setup_fw boot_fetch_fails initial_globals) = TASK_PENDING"
  using setup_outcome [of boot_no_wifi initial_globals]
    setup_outcome [of boot_done initial_globals]
    setup_outcome [of boot_fetch_fails initial_globals]
    wifiUp_boot_no_wifi wifiUp_boot_done wifiUp_boot_fetch_fails
  by (simp add: boot_done_def boot_fetch_fails_def)

text \<open>
  The counterexample to claim C3 as stated: WiFi is up, the fetch fails, and the device is
  in \<open>TASK_PENDING\<close>, not in \<open>ERROR_FAILED\<close>.
\<close>

theorem fetch_failure_gives_pending:
  "wifiUp boot_fetch_fails \<and> fetchAtSetup boot_fetch_fails = None
   \<and> currentState (setup_fw boot_fetch_fails initial_globals) = TASK_PENDING
   \<and> currentState (setup_fw boot_fetch_fails initial_globals) \<noteq> ERROR_FAILED"
  by (simp add: setup_fw_def wifiUp_boot_fetch_fails) (simp add: boot_fetch_fails_def)

section \<open>Single passes of the bounded-attempts loop\<close>

text \<open>
  A pass outside the reset window leaves every global but \<open>midnightResetExecuted\<close> as the
  blocks before the reset block left it. The lemmas after that describe the passes a
  request goes through, one transition each.
\<close>

lemma outside_fields:
  assumes "outsideReset e"
  shows "currentState (midnightReset e s) = currentState s"
    and "errorRetryAttemptCount (midnightReset e s) = errorRetryAttemptCount s"
    and "lastApiRetryAttemptTime (midnightReset e s) = lastApiRetryAttemptTime s"
    and "apiRequestPending (midnightReset e s) = apiRequestPending s"
    and "apiTaskHandle (midnightReset e s) = apiTaskHandle s"
    and "newTargetTaskState (midnightReset e s) = newTargetTaskState s"
    and "animationStartTime (midnightReset e s) = animationStartTime s"
    and "apiResultReceived (midnightReset e s) = apiResultReceived s"
    and "apiResultSuccess (midnightReset e s) = apiResultSuccess s"
    and "lastResetDay (midnightReset e s) = lastResetDay s"
  using assms by (auto simp add: midnightReset_def outsideReset_def resetWindow_def Let_def)

lemma quiet_outside: "quiet e \<Longrightarrow> outsideReset e"
  by (simp add: quiet_def)

lemma loop_outside:
  assumes "outsideReset e"
  shows "currentState (loop e s) = currentState (beforeReset e s)"
    and "apiResultReceived (loop e s) = apiResultReceived (beforeReset e s)"
  by (simp_all add: loop_def outside_fields [OF assms])

lemma tick_press:
  assumes st: "currentState s = TASK_PENDING \<or> currentState s = TASK_COMPLETED"
    and b: "btnWasPressed e" "apiTaskHandle s" "\<not> apiRequestPending s"
    and o: "outsideReset e"
  shows "currentState (loop e s) = API_CONNECTING"
    and "newTargetTaskState (loop e s) = (currentState s = TASK_PENDING)"
    and "apiRequestPending (loop e s)"
    and "apiTaskHandle (loop e s)"
    and "errorRetryAttemptCount (loop e s) = 0"
proof -
  have p: "processApiResult e s = s \<or> processApiResult e s = s\<lparr>apiResultReceived := False\<rparr>"
    using st by (auto simp add: processApiResult_def)
  have bt: "processButton e (processApiResult e s) =
      (processApiResult e s)\<lparr> newTargetTaskState := (currentState s = TASK_PENDING), apiRequestPending := True,
              errorRetryAttemptCount := 0, currentState := API_REQUEST_PENDING \<rparr>"
    using p st b by (auto simp add: processButton_def)
  have br: "beforeReset e s = (processApiResult e s)\<lparr> newTargetTaskState := (currentState s = TASK_PENDING), apiRequestPending := True,
              errorRetryAttemptCount := 0, currentState := API_CONNECTING, animationStartTime := millisConnecting e \<rparr>"
    unfolding beforeReset_def bt by (simp add: handoff_def successExit_def retryExit_def)
  show "currentState (loop e s) = API_CONNECTING"
    and "newTargetTaskState (loop e s) = (currentState s = TASK_PENDING)"
    and "apiRequestPending (loop e s)"
    and "apiTaskHandle (loop e s)"
    and "errorRetryAttemptCount (loop e s) = 0"
    using p b by (auto simp add: loop_def outside_fields [OF o] br)
qed

lemma tick_handoff:
  assumes "currentState s = API_REQUEST_PENDING" "apiRequestPending s" "quiet e"
  shows "currentState (loop e s) = API_CONNECTING"
    and "errorRetryAttemptCount (loop e s) = errorRetryAttemptCount s"
    and "apiRequestPending (loop e s)"
    and "apiTaskHandle (loop e s) = apiTaskHandle s"
    and "newTargetTaskState (loop e s) = newTargetTaskState s"
  using assms
  by (simp_all add: loop_def outside_fields [OF quiet_outside]) (simp_all add: before_defs quiet_def)

lemma tick_success:
  assumes "currentState s = API_CONNECTING" "apiResultReceived s" "apiResultSuccess s"
    and "outsideReset e"
    and "millisLoop e - millisSuccessEffect e \<le> SUCCESS_EFFECT_DURATION"
  shows "currentState (loop e s) = EFFECT_SUCCESS"
    and "errorRetryAttemptCount (loop e s) = 0"
    and "animationStartTime (loop e s) = millisSuccessEffect e"
    and "newTargetTaskState (loop e s) = newTargetTaskState s"
    and "apiRequestPending (loop e s) = apiRequestPending s"
    and "apiTaskHandle (loop e s) = apiTaskHandle s"
  using assms
proof -
  have n: "\<not> millisLoop e - millisSuccessEffect e > SUCCESS_EFFECT_DURATION"
    using assms(5) by (simp add: not_less)
  from assms(1-4) n
  show "currentState (loop e s) = EFFECT_SUCCESS"
    and "errorRetryAttemptCount (loop e s) = 0"
    and "animationStartTime (loop e s) = millisSuccessEffect e"
    and "newTargetTaskState (loop e s) = newTargetTaskState s"
    and "apiRequestPending (loop e s) = apiRequestPending s"
    and "apiTaskHandle (loop e s) = apiTaskHandle s"
    by (simp_all add: loop_def outside_fields) (simp_all add: before_defs)
qed

lemma tick_success_over:
  assumes "currentState s = EFFECT_SUCCESS"
    and "outsideReset e"
    and "millisLoop e - animationStartTime s > SUCCESS_EFFECT_DURATION"
  shows "currentState (loop e s) = (if newTargetTaskState s then TASK_COMPLETED else TASK_PENDING)"
  using assms
  by (simp_all add: loop_def outside_fields) (simp_all add: before_defs)

lemma tick_resting:
  assumes "currentState s = TASK_PENDING \<or> currentState s = TASK_COMPLETED"
    and "\<not> apiResultReceived s" "quiet e"
  shows "currentState (loop e s) = currentState s"
proof -
  have p: "processApiResult e s = s"
    using assms(2) by (simp add: processApiResult_def)
  have b: "processButton e s = s"
    using assms(3) by (simp add: processButton_def quiet_def)
  have "beforeReset e s = s"
    using assms(1) by (auto simp add: beforeReset_def p b handoff_def successExit_def retryExit_def)
  then show ?thesis
    by (simp add: loop_def outside_fields [OF quiet_outside [OF assms(3)]])
qed

lemma tick_failure:
  assumes "currentState s = API_CONNECTING" "apiResultReceived s" "\<not> apiResultSuccess s"
    and "quiet e" "errorRetryAttemptCount s <s MAX_API_UPDATE_RETRIES"
  shows "currentState (loop e s) = ERROR_RETRYING"
    and "lastApiRetryAttemptTime (loop e s) = millisLoop e"
    and "errorRetryAttemptCount (loop e s) = errorRetryAttemptCount s"
    and "apiRequestPending (loop e s) = apiRequestPending s"
    and "apiTaskHandle (loop e s) = apiTaskHandle s"
    and "newTargetTaskState (loop e s) = newTargetTaskState s"
  using assms
  by (simp_all add: loop_def outside_fields [OF quiet_outside]) (simp_all add: before_defs quiet_def)

lemma tick_failure_exhausted:
  assumes "currentState s = API_CONNECTING" "apiResultReceived s" "\<not> apiResultSuccess s"
    and "quiet e" "\<not> errorRetryAttemptCount s <s MAX_API_UPDATE_RETRIES"
  shows "currentState (loop e s) = ERROR_FAILED"
  using assms
  by (simp_all add: loop_def outside_fields [OF quiet_outside]) (simp_all add: before_defs quiet_def)

lemma tick_retry:
  assumes "currentState s = ERROR_RETRYING" "quiet e"
    and "errorRetryAttemptCount s <s MAX_API_UPDATE_RETRIES"
    and "millisLoop e - lastApiRetryAttemptTime s \<ge> API_UPDATE_RETRY_INTERVAL_MS"
  shows "currentState (loop e s) = API_REQUEST_PENDING"
    and "errorRetryAttemptCount (loop e s) = errorRetryAttemptCount s + 1"
    and "apiRequestPending (loop e s)"
    and "apiTaskHandle (loop e s) = apiTaskHandle s"
    and "newTargetTaskState (loop e s) = newTargetTaskState s"
  using assms
  by (simp_all add: loop_def outside_fields [OF quiet_outside]) (simp_all add: before_defs quiet_def)

section \<open>A result that arrives outside of the connecting state\<close>

text \<open>
  Claim C9. When \<open>apiResultReceived\<close> is set and the state is not \<open>API_CONNECTING\<close>, the
  result block only clears the flag: the state, the target, the retry counter and every
  other global stay as they were. The rest of the pass then runs exactly as it would have
  run had no result arrived.
\<close>

theorem result_discarded:
  assumes "apiResultReceived s" and "currentState s \<noteq> API_CONNECTING"
  shows "processApiResult e s = s\<lparr> apiResultReceived := False \<rparr>
       \<and> loop e s = loop e (s\<lparr> apiResultReceived := False \<rparr>)"
  using assms by (simp add: loop_def beforeReset_def processApiResult_def)

theorem result_discarded_witness:
  "apiResultReceived (fst (run (press_before_reset @ [Tick reset_tick, TaskDone True]) (boot boot_ok)))
   \<and> currentState (fst (run (press_before_reset @ [Tick reset_tick, TaskDone True]) (boot boot_ok)))
       \<noteq> API_CONNECTING
   \<and> processApiResult after_reset_tick
        (fst (run (press_before_reset @ [Tick reset_tick, TaskDone True]) (boot boot_ok)))
       = (fst (run (press_before_reset @ [Tick reset_tick, TaskDone True]) (boot boot_ok)))
           \<lparr> apiResultReceived := False \<rparr>
   \<and> loop after_reset_tick
        (fst (run (press_before_reset @ [Tick reset_tick, TaskDone True]) (boot boot_ok)))
       = loop after_reset_tick
           ((fst (run (press_before_reset @ [Tick reset_tick, TaskDone True]) (boot boot_ok)))
              \<lparr> apiResultReceived := False \<rparr>)"
proof -
  have a: "apiResultReceived
      (fst (run (press_before_reset @ [Tick reset_tick, TaskDone True]) (boot boot_ok)))"
    by (simp add: eval_simps)
  have b: "currentState (fst (run (press_before_reset @ [Tick reset_tick, TaskDone True]) (boot boot_ok)))
      \<noteq> API_CONNECTING"
    by (simp add: eval_simps)
  show ?thesis using a b result_discarded [OF a b, of after_reset_tick] by blast
qed

section \<open>Toggling the task\<close>

text \<open>
  Outside the daily reset the toggle works. From \<open>TASK_PENDING\<close>, with the worker created
  and no request pending: a pass \<open>b\<close> with the button pressed, a call of the worker that
  succeeds, the pass \<open>r\<close> that sees the result and a quiet pass \<open>x\<close> after the success effect
  has run out bring the device to \<open>TASK_COMPLETED\<close>. On the way the result block of pass
  \<open>r\<close> puts the device in \<open>EFFECT_SUCCESS\<close>, and the device is still there at the end of
  that pass unless the reading of \<^verbatim>\<open>millis()\<close> in \<^verbatim>\<open>startSuccessEffect()\<close> is later than the
  one at the top of the pass (the unsigned difference then exceeds the duration at once).
  From \<open>TASK_COMPLETED\<close> the same schedule ends in \<open>TASK_PENDING\<close>.
\<close>

lemma toggle_outside_reset:
  assumes h: "apiTaskHandle s" "\<not> apiRequestPending s"
    and b: "btnWasPressed b" "outsideReset b"
    and r: "outsideReset r"
    and x: "quiet x" "millisLoop x - millisSuccessEffect r > SUCCESS_EFFECT_DURATION"
  shows "(currentState s = TASK_PENDING \<longrightarrow>
            currentState (processApiResult r (fst (run [Tick b, TaskTake, TaskDone True] (s, Idle))))
              = EFFECT_SUCCESS
          \<and> (millisLoop r - millisSuccessEffect r \<le> SUCCESS_EFFECT_DURATION \<longrightarrow>
               currentState (fst (run [Tick b, TaskTake, TaskDone True, Tick r] (s, Idle)))
                 = EFFECT_SUCCESS)
          \<and> currentState (fst (run [Tick b, TaskTake, TaskDone True, Tick r, Tick x] (s, Idle)))
              = TASK_COMPLETED)
       \<and> (currentState s = TASK_COMPLETED \<longrightarrow>
            currentState (processApiResult r (fst (run [Tick b, TaskTake, TaskDone True] (s, Idle))))
              = EFFECT_SUCCESS
          \<and> (millisLoop r - millisSuccessEffect r \<le> SUCCESS_EFFECT_DURATION \<longrightarrow>
               currentState (fst (run [Tick b, TaskTake, TaskDone True, Tick r] (s, Idle)))
                 = EFFECT_SUCCESS)
          \<and> currentState (fst (run [Tick b, TaskTake, TaskDone True, Tick r, Tick x] (s, Idle)))
              = TASK_PENDING)"
proof -
  have main: "currentState (processApiResult r (fst (run [Tick b, TaskTake, TaskDone True] (s, Idle))))
              = EFFECT_SUCCESS
          \<and> (millisLoop r - millisSuccessEffect r \<le> SUCCESS_EFFECT_DURATION \<longrightarrow>
               currentState (fst (run [Tick b, TaskTake, TaskDone True, Tick r] (s, Idle)))
                 = EFFECT_SUCCESS)
          \<and> currentState (fst (run [Tick b, TaskTake, TaskDone True, Tick r, Tick x] (s, Idle)))
              = (if currentState s = TASK_PENDING then TASK_COMPLETED else TASK_PENDING)"
    if st: "currentState s = TASK_PENDING \<or> currentState s = TASK_COMPLETED"
  proof -
    let ?tgt = "if currentState s = TASK_PENDING then TASK_COMPLETED else TASK_PENDING"
    let ?s1 = "loop b s"
    have s1: "currentState ?s1 = API_CONNECTING" "apiRequestPending ?s1" "apiTaskHandle ?s1"
      "newTargetTaskState ?s1 = (currentState s = TASK_PENDING)"
      using tick_press [OF st b(1) h b(2)] by simp_all
    let ?s2 = "apiTask_done True ?s1"
    have s2: "currentState ?s2 = API_CONNECTING" "apiResultReceived ?s2" "apiResultSuccess ?s2"
      "newTargetTaskState ?s2 = (currentState s = TASK_PENDING)"
      using s1 by (simp_all add: apiTask_done_def)
    have run2: "run [Tick b, TaskTake, TaskDone True] (s, Idle) = (?s2, Idle)"
      using s1 by (simp add: apiTask_take_def)
    have via: "currentState (processApiResult r ?s2) = EFFECT_SUCCESS"
      using s2 by (simp add: processApiResult_def)
    let ?s3 = "loop r ?s2"
    have run3: "run [Tick b, TaskTake, TaskDone True, Tick r] (s, Idle) = (?s3, Idle)"
      using s1 by (simp add: apiTask_take_def)
    have run4: "run [Tick b, TaskTake, TaskDone True, Tick r, Tick x] (s, Idle) = (loop x ?s3, Idle)"
      using s1 by (simp add: apiTask_take_def)
    have fin: "currentState (loop x ?s3) = ?tgt"
    proof (cases "millisLoop r - millisSuccessEffect r \<le> SUCCESS_EFFECT_DURATION")
      case True
      have s3: "currentState ?s3 = EFFECT_SUCCESS" "animationStartTime ?s3 = millisSuccessEffect r"
        "newTargetTaskState ?s3 = (currentState s = TASK_PENDING)"
        using tick_success [OF s2(1,2,3) r True] s2(4) by simp_all
      show ?thesis
        using tick_success_over [OF s3(1) quiet_outside [OF x(1)]] x(2) s3(2,3) by simp
    next
      case False
      then have over: "millisLoop r - millisSuccessEffect r > SUCCESS_EFFECT_DURATION"
        by (simp add: not_le)
      have p3: "processApiResult r ?s2 = ?s2\<lparr> currentState := EFFECT_SUCCESS,
                 animationStartTime := millisSuccessEffect r,
                 errorRetryAttemptCount := 0, apiResultReceived := False \<rparr>"
        using s2 by (simp add: processApiResult_def)
      have b3: "processButton r (processApiResult r ?s2) = processApiResult r ?s2"
        by (simp add: p3 processButton_def)
      have "beforeReset r ?s2 = (processApiResult r ?s2)\<lparr> currentState := ?tgt \<rparr>"
        unfolding beforeReset_def b3 using over s2(4)
        by (simp add: p3 handoff_def successExit_def retryExit_def)
      then have s3: "currentState ?s3 = ?tgt" "\<not> apiResultReceived ?s3"
        by (simp_all add: loop_outside [OF r] p3)
      have "currentState ?s3 = TASK_PENDING \<or> currentState ?s3 = TASK_COMPLETED"
        using s3(1) by (cases "currentState s = TASK_PENDING") simp_all
      then have "currentState (loop x ?s3) = currentState ?s3"
        using s3(2) x(1) by (rule tick_resting)
      then show ?thesis using s3(1) by simp
    qed
    show ?thesis
      unfolding run2 run3 run4 fst_conv
      using via fin tick_success(1) [OF s2(1,2,3) r] by blast
  qed
  show ?thesis using main by auto
qed

lemma toggle_outside_reset_example:
  "currentState (fst (boot boot_ok)) = TASK_PENDING
   \<and> currentState (fst (run [Tick (tick_at 1000 True 3 12 0 0), TaskTake, TaskDone True,
                              Tick (tick_at 2000 False 3 12 0 1)] (fst (boot boot_ok), Idle)))
       = EFFECT_SUCCESS
   \<and> currentState (fst (run [Tick (tick_at 1000 True 3 12 0 0), TaskTake, TaskDone True,
                              Tick (tick_at 2000 False 3 12 0 1),
                              Tick (tick_at 3100 False 3 12 0 2)] (fst (boot boot_ok), Idle)))
       = TASK_COMPLETED
   \<and> currentState (fst (boot boot_done)) = TASK_COMPLETED
   \<and> currentState (fst (run [Tick (tick_at 1000 True 3 12 0 0), TaskTake, TaskDone True,
                              Tick (tick_at 2000 False 3 12 0 1)] (fst (boot boot_done), Idle)))
       = EFFECT_SUCCESS
   \<and> currentState (fst (run [Tick (tick_at 1000 True 3 12 0 0), TaskTake, TaskDone True,
                              Tick (tick_at 2000 False 3 12 0 1),
                              Tick (tick_at 3100 False 3 12 0 2)] (fst (boot boot_done), Idle)))
       = TASK_PENDING"
proof -
  have s: "apiTaskHandle (fst (boot boot_ok))" "\<not> apiRequestPending (fst (boot boot_ok))"
      "currentState (fst (boot boot_ok)) = TASK_PENDING"
      "apiTaskHandle (fst (boot boot_done))" "\<not> apiRequestPending (fst (boot boot_done))"
      "currentState (fst (boot boot_done)) = TASK_COMPLETED"
    by (simp_all add: boot_ok_state boot_done_state initial_globals_def)
  have b: "btnWasPressed (tick_at 1000 True 3 12 0 0)" "outsideReset (tick_at 1000 True 3 12 0 0)"
    by (simp add: tick_at_def) (simp add: outside_tick_at)
  have r: "outsideReset (tick_at 2000 False 3 12 0 1)"
    by (simp add: outside_tick_at)
  have r': "millisLoop (tick_at 2000 False 3 12 0 1) - millisSuccessEffect (tick_at 2000 False 3 12 0 1)
        \<le> SUCCESS_EFFECT_DURATION"
    by (simp add: tick_at_def)
  have x: "quiet (tick_at 3100 False 3 12 0 2)"
      "millisLoop (tick_at 3100 False 3 12 0 2) - millisSuccessEffect (tick_at 2000 False 3 12 0 1)
        > SUCCESS_EFFECT_DURATION"
    by (simp add: quiet_tick_at) (simp add: tick_at_def SUCCESS_EFFECT_DURATION_def)
  show ?thesis
    using s(3,6) r' toggle_outside_reset [OF s(1,2) b r x] toggle_outside_reset [OF s(4,5) b r x]
    by simp
qed

text \<open>
  Claim C7 fails on the code. From \<open>TASK_PENDING\<close> the button is pressed at 15:00:59 and the
  worker starts its call for "done". The pass at 15:01:00 fires the daily reset over the
  request in flight and sets the target to "not done". The call succeeds, the device goes
  through \<open>EFFECT_SUCCESS\<close>, and it ends in \<open>TASK_PENDING\<close>, not in \<open>TASK_COMPLETED\<close>.
\<close>

theorem toggle_lost_to_reset:
  "currentState (fst (boot boot_ok)) = TASK_PENDING
   \<and> currentState (fst (run press_before_reset (boot boot_ok))) = API_CONNECTING
   \<and> snd (run press_before_reset (boot boot_ok)) = InCall True
   \<and> currentState (fst (run (press_before_reset @ [Tick reset_tick, Tick after_reset_tick,
          TaskDone True, Tick (tick_at 2200 False 3 15 1 0)]) (boot boot_ok))) = EFFECT_SUCCESS
   \<and> currentState (fst (run reset_during_call (boot boot_ok))) = TASK_PENDING
   \<and> currentState (fst (run reset_during_call (boot boot_ok))) \<noteq> TASK_COMPLETED"
  by (simp add: eval_simps)

section \<open>The retry counter\<close>

lemma count_processApiResult:
  "errorRetryAttemptCount (processApiResult e s) = errorRetryAttemptCount s
   \<or> (errorRetryAttemptCount (processApiResult e s) = 0
       \<and> currentState (processApiResult e s) \<noteq> ERROR_RETRYING)"
  by (simp add: processApiResult_def)

lemma count_processButton:
  "errorRetryAttemptCount (processButton e s) = errorRetryAttemptCount s
     \<and> (currentState (processButton e s) = ERROR_RETRYING \<longrightarrow> currentState s = ERROR_RETRYING)
   \<or> (errorRetryAttemptCount (processButton e s) = 0
       \<and> currentState (processButton e s) \<noteq> ERROR_RETRYING)"
  by (simp add: processButton_def recoverFromError_def Let_def split: option.splits)

lemma count_handoff:
  "errorRetryAttemptCount (handoff e s) = errorRetryAttemptCount s"
  "currentState (handoff e s) = ERROR_RETRYING \<longleftrightarrow> currentState s = ERROR_RETRYING"
  by (auto simp add: handoff_def)

lemma count_successExit:
  "errorRetryAttemptCount (successExit e s) = errorRetryAttemptCount s"
  "currentState (successExit e s) = ERROR_RETRYING \<longleftrightarrow> currentState s = ERROR_RETRYING"
  by (auto simp add: successExit_def)

lemma count_retryExit:
  "errorRetryAttemptCount (retryExit e s) = errorRetryAttemptCount s
   \<or> (currentState s = ERROR_RETRYING
       \<and> errorRetryAttemptCount s <s MAX_API_UPDATE_RETRIES
       \<and> errorRetryAttemptCount (retryExit e s) = errorRetryAttemptCount s + 1)"
  by (simp add: retryExit_def)

lemma count_midnightReset:
  "errorRetryAttemptCount (midnightReset e s) = errorRetryAttemptCount s
   \<or> errorRetryAttemptCount (midnightReset e s) = 0"
  by (simp add: midnightReset_def Let_def)

lemma loop_count_change:
  "errorRetryAttemptCount (loop e s) = 0
   \<or> errorRetryAttemptCount (loop e s) = errorRetryAttemptCount s
   \<or> (errorRetryAttemptCount s <s MAX_API_UPDATE_RETRIES
       \<and> errorRetryAttemptCount (loop e s) = errorRetryAttemptCount s + 1)"
proof -
  let ?c = "errorRetryAttemptCount s"
  let ?s1 = "processApiResult e s"
  let ?s2 = "processButton e ?s1"
  let ?s4 = "successExit e (handoff e ?s2)"
  let ?s5 = "retryExit e ?s4"
  have q2: "errorRetryAttemptCount ?s2 = ?c
      \<or> (errorRetryAttemptCount ?s2 = 0 \<and> currentState ?s2 \<noteq> ERROR_RETRYING)"
    using count_processApiResult [of e s] count_processButton [of e ?s1] by auto
  have q4: "errorRetryAttemptCount ?s4 = ?c
      \<or> (errorRetryAttemptCount ?s4 = 0 \<and> currentState ?s4 \<noteq> ERROR_RETRYING)"
    using q2 by (simp add: count_handoff count_successExit)
  have q5: "errorRetryAttemptCount ?s5 = 0 \<or> errorRetryAttemptCount ?s5 = ?c
      \<or> (?c <s MAX_API_UPDATE_RETRIES \<and> errorRetryAttemptCount ?s5 = ?c + 1)"
    using q4 count_retryExit [of e ?s4] by auto
  have "loop e s = midnightReset e ?s5"
    by (simp add: loop_def beforeReset_def)
  then show ?thesis
    using q5 count_midnightReset [of e ?s5] by auto
qed

lemma loop_count_inv:
  assumes "errorRetryAttemptCount s \<in> {0, 1, 2, 3}"
  shows "errorRetryAttemptCount (loop e s) \<in> {0, 1, 2, 3}"
proof -
  have "errorRetryAttemptCount s <s MAX_API_UPDATE_RETRIES \<Longrightarrow> errorRetryAttemptCount s \<in> {0, 1, 2}"
    using assms by (auto simp add: MAX_API_UPDATE_RETRIES_def word_sless_alt)
  then show ?thesis
    using loop_count_change [of e s] assms by auto
qed

lemma step_count_inv:
  "errorRetryAttemptCount (fst c) \<in> {0, 1, 2, 3} \<Longrightarrow>
   errorRetryAttemptCount (fst (step ev c)) \<in> {0, 1, 2, 3}"
proof (cases c)
  case (Pair s w)
  assume a: "errorRetryAttemptCount (fst c) \<in> {0, 1, 2, 3}"
  show ?thesis
  proof (cases ev)
    case (Tick e)
    with Pair a loop_count_inv [of s e] show ?thesis by simp
  next
    case TaskTake
    with Pair a show ?thesis by simp
  next
    case (TaskDone ok)
    with Pair a show ?thesis by (cases w) (simp_all add: apiTask_done_def)
  qed
qed

lemma run_count_inv:
  "errorRetryAttemptCount (fst c) \<in> {0, 1, 2, 3} \<Longrightarrow>
   errorRetryAttemptCount (fst (run evs c)) \<in> {0, 1, 2, 3}"
proof (induction evs arbitrary: c)
  case Nil
  then show ?case by simp
next
  case (Cons ev evs)
  have "errorRetryAttemptCount (fst (step ev c)) \<in> {0, 1, 2, 3}"
    using Cons.prems by (rule step_count_inv)
  then have "errorRetryAttemptCount (fst (run evs (step ev c))) \<in> {0, 1, 2, 3}"
    by (rule Cons.IH)
  then show ?case by (simp only: run.simps)
qed

lemma setup_count: "errorRetryAttemptCount (setup_fw e s) = errorRetryAttemptCount s"
  by (simp add: setup_fw_def Let_def split: option.splits)

lemma boot_count: "errorRetryAttemptCount (fst (boot e)) = 0"
  by (simp add: boot_def setup_count initial_globals_def)

lemma success_resets_count:
  assumes "currentState s = API_CONNECTING" "apiResultReceived s" "apiResultSuccess s"
  shows "errorRetryAttemptCount (loop e s) = 0"
proof -
  let ?s1 = "processApiResult e s"
  have s1: "currentState ?s1 = EFFECT_SUCCESS" "errorRetryAttemptCount ?s1 = 0"
    using assms by (simp_all add: processApiResult_def)
  have "processButton e ?s1 = ?s1"
    using s1 by (simp add: processButton_def)
  then have "errorRetryAttemptCount (beforeReset e s) = 0"
    using s1 by (simp add: beforeReset_def handoff_def successExit_def retryExit_def)
  then show ?thesis
    using count_midnightReset [of e "beforeReset e s"] by (auto simp add: loop_def)
qed

lemma press_resets_count:
  assumes st: "currentState s = TASK_PENDING \<or> currentState s = TASK_COMPLETED"
    and b: "btnWasPressed e" "apiTaskHandle s" "\<not> apiRequestPending s"
  shows "errorRetryAttemptCount (loop e s) = 0"
proof -
  have p: "processApiResult e s = s \<or> processApiResult e s = s\<lparr>apiResultReceived := False\<rparr>"
    using st by (auto simp add: processApiResult_def)
  have bt: "errorRetryAttemptCount (processButton e (processApiResult e s)) = 0"
      "currentState (processButton e (processApiResult e s)) = API_REQUEST_PENDING"
    using p st b by (auto simp add: processButton_def)
  have "errorRetryAttemptCount (beforeReset e s) = 0"
    using bt by (simp add: beforeReset_def handoff_def successExit_def retryExit_def)
  then show ?thesis
    using count_midnightReset [of e "beforeReset e s"] by (auto simp add: loop_def)
qed

text \<open>
  Claim C10, as amended. In every state reached from start-up by passes of the loop and steps of the
  worker, \<open>errorRetryAttemptCount\<close> lies between 0 and \<open>MAX_API_UPDATE_RETRIES\<close> (as signed
  values). A pass leaves the counter as it was, sets it to 0, or adds 1 to it, and adds 1
  only when it was below the bound. A pass that accepts the button in \<open>TASK_PENDING\<close> or
  \<open>TASK_COMPLETED\<close>, and a pass that sees a successful result in \<open>API_CONNECTING\<close>, end
  with the counter at 0.
\<close>

theorem retry_count_bounded:
  "errorRetryAttemptCount (fst (run evs (boot se))) <=s MAX_API_UPDATE_RETRIES
   \<and> 0 <=s errorRetryAttemptCount (fst (run evs (boot se)))
   \<and> (errorRetryAttemptCount (loop e s) = 0
       \<or> errorRetryAttemptCount (loop e s) = errorRetryAttemptCount s
       \<or> (errorRetryAttemptCount s <s MAX_API_UPDATE_RETRIES
           \<and> errorRetryAttemptCount (loop e s) = errorRetryAttemptCount s + 1))
   \<and> ((currentState s = TASK_PENDING \<or> currentState s = TASK_COMPLETED)
        \<and> btnWasPressed e \<and> apiTaskHandle s \<and> \<not> apiRequestPending s
       \<longrightarrow> errorRetryAttemptCount (loop e s) = 0)
   \<and> (currentState s = API_CONNECTING \<and> apiResultReceived s \<and> apiResultSuccess s
       \<longrightarrow> errorRetryAttemptCount (loop e s) = 0)"
proof -
  have "errorRetryAttemptCount (fst (run evs (boot se))) \<in> {0, 1, 2, 3}"
    by (rule run_count_inv) (simp add: boot_count)
  then have "errorRetryAttemptCount (fst (run evs (boot se))) <=s MAX_API_UPDATE_RETRIES
      \<and> 0 <=s errorRetryAttemptCount (fst (run evs (boot se)))"
    by (auto simp add: MAX_API_UPDATE_RETRIES_def word_sle_eq)
  then show ?thesis
    using loop_count_change [of e s] success_resets_count [of s e] press_resets_count [of s e]
    by blast
qed

theorem retry_count_bounded_witness:
  "errorRetryAttemptCount (fst (run three_failures (boot boot_ok))) <=s MAX_API_UPDATE_RETRIES
   \<and> currentState (fst (boot boot_ok)) = TASK_PENDING
   \<and> errorRetryAttemptCount (loop (tick_at 1000 True 3 12 0 0) (fst (boot boot_ok))) = 0
   \<and> currentState (apiTask_done True (fst (run press_and_call (boot boot_ok)))) = API_CONNECTING
   \<and> errorRetryAttemptCount (loop (tick_at 2000 False 3 12 0 1)
        (apiTask_done True (fst (run press_and_call (boot boot_ok))))) = 0"
proof -
  have a: "currentState (fst (boot boot_ok)) = TASK_PENDING"
      "btnWasPressed (tick_at 1000 True 3 12 0 0)" "apiTaskHandle (fst (boot boot_ok))"
      "\<not> apiRequestPending (fst (boot boot_ok))"
    by (simp_all add: boot_ok_state initial_globals_def tick_at_def)
  have b: "currentState (apiTask_done True (fst (run press_and_call (boot boot_ok)))) = API_CONNECTING"
      "apiResultReceived (apiTask_done True (fst (run press_and_call (boot boot_ok))))"
      "apiResultSuccess (apiTask_done True (fst (run press_and_call (boot boot_ok))))"
    by (simp_all add: in_flight_state apiTask_done_def)
  show ?thesis
    using a b
      retry_count_bounded [of three_failures boot_ok "tick_at 1000 True 3 12 0 0" "fst (boot boot_ok)"]
      retry_count_bounded [of three_failures boot_ok "tick_at 2000 False 3 12 0 1"
        "apiTask_done True (fst (run press_and_call (boot boot_ok)))"]
    by blast
qed

text \<open>
  The counterexample to claim C10 as stated: a retried call succeeds before the pass that
  hands the request over, the result block drops the outcome in \<open>API_REQUEST_PENDING\<close>, and
  the counter is still 1 after that submission success.
\<close>

theorem dropped_success_keeps_count:
  "apiResultSuccess (fst (run success_before_handover (boot boot_ok)))
   \<and> errorRetryAttemptCount (fst (run success_before_handover (boot boot_ok))) = 1
   \<and> errorRetryAttemptCount (fst (run success_before_handover (boot boot_ok))) \<noteq> 0"
  by (simp add: eval_simps success_before_handover_def)

section \<open>Bounded retries\<close>

text \<open>
  The passes that wait: a quiet pass in \<open>ERROR_RETRYING\<close> before the retry interval is over,
  and a quiet pass in \<open>API_CONNECTING\<close> before the result has arrived, change neither the
  state nor the counter.
\<close>

lemma run_ticks: "run (map Tick es) (s, w) = (runTicks es s, w)"
  by (induction es arbitrary: s) simp_all

lemma result_flag_cleared: "\<not> apiResultReceived (loop e s)"
proof -
  have a: "\<not> apiResultReceived (processApiResult e s)"
    by (simp add: processApiResult_def)
  have b: "apiResultReceived (processButton e s') = apiResultReceived s'" for s'
    by (simp add: processButton_def recoverFromError_def Let_def split: option.splits)
  have c: "apiResultReceived (handoff e s') = apiResultReceived s'" for s' :: retry_globals
    by (simp add: handoff_def)
  have d: "apiResultReceived (successExit e s') = apiResultReceived s'" for s'
    by (simp add: successExit_def)
  have f: "apiResultReceived (retryExit e s') = apiResultReceived s'" for s'
    by (simp add: retryExit_def)
  have g: "apiResultReceived (midnightReset e s') = apiResultReceived s'" for s'
    by (simp add: midnightReset_def Let_def)
  show ?thesis
    by (simp add: loop_def beforeReset_def a b c d f g)
qed

lemma tick_waiting:
  assumes "currentState s = ERROR_RETRYING" "quiet e"
    and "errorRetryAttemptCount s <s MAX_API_UPDATE_RETRIES"
    and "millisLoop e - lastApiRetryAttemptTime s < API_UPDATE_RETRY_INTERVAL_MS"
  shows "currentState (loop e s) = ERROR_RETRYING"
    and "errorRetryAttemptCount (loop e s) = errorRetryAttemptCount s"
    and "lastApiRetryAttemptTime (loop e s) = lastApiRetryAttemptTime s"
    and "apiTaskHandle (loop e s) = apiTaskHandle s"
proof -
  have n: "\<not> millisLoop e - lastApiRetryAttemptTime s \<ge> API_UPDATE_RETRY_INTERVAL_MS"
    using assms(4) by (simp add: not_le)
  from assms(1-3) n
  show "currentState (loop e s) = ERROR_RETRYING"
    and "errorRetryAttemptCount (loop e s) = errorRetryAttemptCount s"
    and "lastApiRetryAttemptTime (loop e s) = lastApiRetryAttemptTime s"
    and "apiTaskHandle (loop e s) = apiTaskHandle s"
    by (simp_all add: loop_def outside_fields [OF quiet_outside]) (simp_all add: before_defs quiet_def)
qed

lemma tick_connecting:
  assumes "currentState s = API_CONNECTING" "\<not> apiResultReceived s" "quiet e"
  shows "currentState (loop e s) = API_CONNECTING"
    and "errorRetryAttemptCount (loop e s) = errorRetryAttemptCount s"
    and "apiTaskHandle (loop e s) = apiTaskHandle s"
  using assms
  by (simp_all add: loop_def outside_fields [OF quiet_outside]) (simp_all add: before_defs quiet_def)

lemma waiting_run:
  assumes "currentState s = ERROR_RETRYING" "errorRetryAttemptCount s <s MAX_API_UPDATE_RETRIES"
    and "\<forall>w\<in>set ws. quiet w
           \<and> millisLoop w - lastApiRetryAttemptTime s < API_UPDATE_RETRY_INTERVAL_MS"
  shows "currentState (runTicks ws s) = ERROR_RETRYING
       \<and> errorRetryAttemptCount (runTicks ws s) = errorRetryAttemptCount s
       \<and> lastApiRetryAttemptTime (runTicks ws s) = lastApiRetryAttemptTime s
       \<and> apiTaskHandle (runTicks ws s) = apiTaskHandle s"
  using assms
proof (induction ws arbitrary: s)
  case Nil
  then show ?case by simp
next
  case (Cons w ws)
  have w: "quiet w" "millisLoop w - lastApiRetryAttemptTime s < API_UPDATE_RETRY_INTERVAL_MS"
    using Cons.prems(3) by simp_all
  note t = tick_waiting [OF Cons.prems(1) w(1) Cons.prems(2) w(2)]
  have "currentState (runTicks ws (loop w s)) = ERROR_RETRYING
       \<and> errorRetryAttemptCount (runTicks ws (loop w s)) = errorRetryAttemptCount (loop w s)
       \<and> lastApiRetryAttemptTime (runTicks ws (loop w s)) = lastApiRetryAttemptTime (loop w s)
       \<and> apiTaskHandle (runTicks ws (loop w s)) = apiTaskHandle (loop w s)"
    using t Cons.prems(2,3) by (intro Cons.IH) simp_all
  then show ?case using t by simp
qed

lemma connecting_run:
  assumes "currentState s = API_CONNECTING" "\<not> apiResultReceived s"
    and "\<forall>c\<in>set cs. quiet c"
  shows "currentState (runTicks cs s) = API_CONNECTING
       \<and> errorRetryAttemptCount (runTicks cs s) = errorRetryAttemptCount s
       \<and> apiTaskHandle (runTicks cs s) = apiTaskHandle s"
  using assms
proof (induction cs arbitrary: s)
  case Nil
  then show ?case by simp
next
  case (Cons c cs)
  have c: "quiet c" using Cons.prems(3) by simp
  note t = tick_connecting [OF Cons.prems(1,2) c]
  have "currentState (runTicks cs (loop c s)) = API_CONNECTING
       \<and> errorRetryAttemptCount (runTicks cs (loop c s)) = errorRetryAttemptCount (loop c s)
       \<and> apiTaskHandle (runTicks cs (loop c s)) = apiTaskHandle (loop c s)"
    using t(1) result_flag_cleared [of c s] Cons.prems(3) by (intro Cons.IH) simp_all
  then show ?case using t by simp
qed

lemma attempt_run:
  assumes s: "currentState s = API_CONNECTING" "apiTaskHandle s"
      "errorRetryAttemptCount s <s MAX_API_UPDATE_RETRIES"
    and q: "quiet f" "quiet r" "quiet h"
    and ws: "waiting f ws" and cs: "allQuiet cs"
    and gap: "millisLoop r - millisLoop f \<ge> API_UPDATE_RETRY_INTERVAL_MS"
  shows "\<exists>s' t'. run (attempt f ws r h cs) (s, InCall t) = (s', InCall t')
           \<and> currentState s' = API_CONNECTING \<and> apiTaskHandle s'
           \<and> errorRetryAttemptCount s' = errorRetryAttemptCount s + 1"
proof -
  let ?s0 = "apiTask_done False s"
  have s0: "currentState ?s0 = API_CONNECTING" "apiResultReceived ?s0" "\<not> apiResultSuccess ?s0"
    "errorRetryAttemptCount ?s0 = errorRetryAttemptCount s" "apiTaskHandle ?s0"
    using s by (simp_all add: apiTask_done_def)
  let ?s1 = "loop f ?s0"
  have s1: "currentState ?s1 = ERROR_RETRYING" "lastApiRetryAttemptTime ?s1 = millisLoop f"
    "errorRetryAttemptCount ?s1 = errorRetryAttemptCount s" "apiTaskHandle ?s1"
    using tick_failure [of ?s0 f] s0 s q by simp_all
  let ?s1' = "runTicks ws ?s1"
  have s1': "currentState ?s1' = ERROR_RETRYING" "lastApiRetryAttemptTime ?s1' = millisLoop f"
    "errorRetryAttemptCount ?s1' = errorRetryAttemptCount s" "apiTaskHandle ?s1'"
    using waiting_run [of ?s1 ws] s1 s(3) ws by (simp_all add: waiting_def)
  let ?s2 = "loop r ?s1'"
  have s2: "currentState ?s2 = API_REQUEST_PENDING" "apiRequestPending ?s2"
    "errorRetryAttemptCount ?s2 = errorRetryAttemptCount s + 1" "apiTaskHandle ?s2"
    using tick_retry [of ?s1' r] s1' s q gap by simp_all
  let ?s3 = "loop h ?s2"
  have s3: "currentState ?s3 = API_CONNECTING" "apiRequestPending ?s3"
    "errorRetryAttemptCount ?s3 = errorRetryAttemptCount s + 1" "apiTaskHandle ?s3"
    "\<not> apiResultReceived ?s3"
    using tick_handoff [of ?s2 h] s2 q result_flag_cleared [of h ?s2] by simp_all
  let ?s4 = "runTicks cs ?s3"
  have s4: "currentState ?s4 = API_CONNECTING"
    "errorRetryAttemptCount ?s4 = errorRetryAttemptCount s + 1" "apiTaskHandle ?s4"
    using connecting_run [of ?s3 cs] s3 cs by (simp_all add: allQuiet_def)
  have "run (attempt f ws r h cs) (s, InCall t) = (?s4, InCall (newTargetTaskState ?s3))"
    using s3 by (simp add: attempt_def run_append run_ticks apiTask_take_def)
  with s4 show ?thesis by blast
qed

text \<open>
  Claim C2, as amended. \<open>MAX_API_UPDATE_RETRIES = 3\<close> counts the retries, not the attempts.
  The start is \<open>API_CONNECTING\<close> with the counter at 0, the worker created and in its call.
  Every pass is quiet (no button press, outside the reset window), and each failed attempt
  runs as \<open>attempt\<close> has it: the call fails, a pass sees the failure, passes less than
  3000 ms after it wait in \<open>ERROR_RETRYING\<close>, a pass at least 3000 ms after the failure was seen requests the retry,
  the next pass hands the request over, the worker starts the call, and passes wait for
  its end. After three failed attempts the device is in \<open>API_CONNECTING\<close> again for a fourth
  attempt, and the pass that sees the fourth failure ends in \<open>ERROR_FAILED\<close>. If instead the
  second attempt succeeds, the result block of the pass \<open>g\<close> that sees the result puts the
  device in \<open>EFFECT_SUCCESS\<close>, and that pass ends with the counter at 0, whatever else the
  pass \<open>g\<close> reads.
\<close>

theorem bounded_retries:
  assumes start: "currentState s = API_CONNECTING" "apiTaskHandle s" "errorRetryAttemptCount s = 0"
    and q1: "quiet f1" "quiet r1" "quiet h1" "waiting f1 ws1" "allQuiet cs1"
    and q2: "quiet f2" "quiet r2" "quiet h2" "waiting f2 ws2" "allQuiet cs2"
    and q3: "quiet f3" "quiet r3" "quiet h3" "waiting f3 ws3" "allQuiet cs3"
    and q4: "quiet f4"
    and gaps: "millisLoop r1 - millisLoop f1 \<ge> API_UPDATE_RETRY_INTERVAL_MS"
      "millisLoop r2 - millisLoop f2 \<ge> API_UPDATE_RETRY_INTERVAL_MS"
      "millisLoop r3 - millisLoop f3 \<ge> API_UPDATE_RETRY_INTERVAL_MS"
  shows "currentState (fst (run (attempt f1 ws1 r1 h1 cs1 @ attempt f2 ws2 r2 h2 cs2
                                  @ attempt f3 ws3 r3 h3 cs3) (s, InCall t))) = API_CONNECTING
       \<and> currentState (fst (run (attempt f1 ws1 r1 h1 cs1 @ attempt f2 ws2 r2 h2 cs2
                                  @ attempt f3 ws3 r3 h3 cs3 @ [TaskDone False, Tick f4])
                                 (s, InCall t))) = ERROR_FAILED
       \<and> currentState (processApiResult g
            (fst (run (attempt f1 ws1 r1 h1 cs1 @ [TaskDone True]) (s, InCall t))))
           = EFFECT_SUCCESS
       \<and> errorRetryAttemptCount (fst (run (attempt f1 ws1 r1 h1 cs1 @ [TaskDone True, Tick g])
                                         (s, InCall t))) = 0"
proof -
  have c0: "errorRetryAttemptCount s <s MAX_API_UPDATE_RETRIES"
    using start by (simp add: MAX_API_UPDATE_RETRIES_def word_sless_alt)
  obtain s1 t1 where s1: "run (attempt f1 ws1 r1 h1 cs1) (s, InCall t) = (s1, InCall t1)"
      "currentState s1 = API_CONNECTING" "apiTaskHandle s1" "errorRetryAttemptCount s1 = 1"
    using attempt_run [OF start(1,2) c0 q1 gaps(1), of t] start(3) by auto
  have c1: "errorRetryAttemptCount s1 <s MAX_API_UPDATE_RETRIES"
    using s1 by (simp add: MAX_API_UPDATE_RETRIES_def word_sless_alt)
  obtain s2 t2 where s2: "run (attempt f2 ws2 r2 h2 cs2) (s1, InCall t1) = (s2, InCall t2)"
      "currentState s2 = API_CONNECTING" "apiTaskHandle s2" "errorRetryAttemptCount s2 = 2"
    using attempt_run [OF s1(2,3) c1 q2 gaps(2), of t1] s1(4) by auto
  have c2: "errorRetryAttemptCount s2 <s MAX_API_UPDATE_RETRIES"
    using s2 by (simp add: MAX_API_UPDATE_RETRIES_def word_sless_alt)
  obtain s3 t3 where s3: "run (attempt f3 ws3 r3 h3 cs3) (s2, InCall t2) = (s3, InCall t3)"
      "currentState s3 = API_CONNECTING" "apiTaskHandle s3" "errorRetryAttemptCount s3 = 3"
    using attempt_run [OF s2(2,3) c2 q3 gaps(3), of t2] s2(4) by auto
  have three: "run (attempt f1 ws1 r1 h1 cs1 @ attempt f2 ws2 r2 h2 cs2 @ attempt f3 ws3 r3 h3 cs3)
        (s, InCall t) = (s3, InCall t3)"
    by (simp add: run_append s1 s2 s3)
  have c3: "\<not> errorRetryAttemptCount s3 <s MAX_API_UPDATE_RETRIES"
    using s3 by (simp add: MAX_API_UPDATE_RETRIES_def word_sless_alt)
  have d3: "currentState (apiTask_done False s3) = API_CONNECTING"
      "apiResultReceived (apiTask_done False s3)" "\<not> apiResultSuccess (apiTask_done False s3)"
      "errorRetryAttemptCount (apiTask_done False s3) = errorRetryAttemptCount s3"
    using s3 by (simp_all add: apiTask_done_def)
  have four: "currentState (loop f4 (apiTask_done False s3)) = ERROR_FAILED"
    using tick_failure_exhausted [OF d3(1,2,3) q4] c3 d3(4) by simp
  have d1: "currentState (apiTask_done True s1) = API_CONNECTING"
      "apiResultReceived (apiTask_done True s1)" "apiResultSuccess (apiTask_done True s1)"
    using s1 by (simp_all add: apiTask_done_def)
  have ok: "currentState (processApiResult g (apiTask_done True s1)) = EFFECT_SUCCESS"
      "errorRetryAttemptCount (loop g (apiTask_done True s1)) = 0"
    using d1 success_resets_count [OF d1] by (simp_all add: processApiResult_def)
  have "run (attempt f1 ws1 r1 h1 cs1 @ attempt f2 ws2 r2 h2 cs2 @ attempt f3 ws3 r3 h3 cs3
             @ [TaskDone False, Tick f4]) (s, InCall t)
      = (loop f4 (apiTask_done False s3), Idle)"
    using three by (simp add: run_append s1 s2 s3)
  moreover have "run (attempt f1 ws1 r1 h1 cs1 @ [TaskDone True, Tick g]) (s, InCall t)
      = (loop g (apiTask_done True s1), Idle)"
    by (simp add: run_append s1)
  moreover have "run (attempt f1 ws1 r1 h1 cs1 @ [TaskDone True]) (s, InCall t)
      = (apiTask_done True s1, Idle)"
    by (simp add: run_append s1)
  ultimately show ?thesis
    using three s3 four ok by simp
qed

theorem bounded_retries_witness:
  "currentState (fst (run press_and_call (boot boot_ok))) = API_CONNECTING
   \<and> errorRetryAttemptCount (fst (run press_and_call (boot boot_ok))) = 0
   \<and> waiting (tick_at 2000 False 3 12 0 1)
        [tick_at 3000 False 3 12 0 2, tick_at 4000 False 3 12 0 3]
   \<and> currentState (fst (run
        (attempt (tick_at 2000 False 3 12 0 1)
                 [tick_at 3000 False 3 12 0 2, tick_at 4000 False 3 12 0 3]
                 (tick_at 5000 False 3 12 0 4) (tick_at 5100 False 3 12 0 4)
                 [tick_at 5200 False 3 12 0 4]
         @ attempt (tick_at 6000 False 3 12 0 5) [] (tick_at 9000 False 3 12 0 8)
                   (tick_at 9100 False 3 12 0 8) []
         @ attempt (tick_at 10000 False 3 12 0 9) [] (tick_at 13000 False 3 12 0 12)
                   (tick_at 13100 False 3 12 0 12) [])
        (fst (run press_and_call (boot boot_ok)), InCall True))) = API_CONNECTING
   \<and> currentState (fst (run
        (attempt (tick_at 2000 False 3 12 0 1)
                 [tick_at 3000 False 3 12 0 2, tick_at 4000 False 3 12 0 3]
                 (tick_at 5000 False 3 12 0 4) (tick_at 5100 False 3 12 0 4)
                 [tick_at 5200 False 3 12 0 4]
         @ attempt (tick_at 6000 False 3 12 0 5) [] (tick_at 9000 False 3 12 0 8)
                   (tick_at 9100 False 3 12 0 8) []
         @ attempt (tick_at 10000 False 3 12 0 9) [] (tick_at 13000 False 3 12 0 12)
                   (tick_at 13100 False 3 12 0 12) []
         @ [TaskDone False, Tick (tick_at 14000 False 3 12 0 13)])
        (fst (run press_and_call (boot boot_ok)), InCall True))) = ERROR_FAILED
   \<and> currentState (processApiResult (tick_at 6000 False 3 12 0 5) (fst (run
        (attempt (tick_at 2000 False 3 12 0 1)
                 [tick_at 3000 False 3 12 0 2, tick_at 4000 False 3 12 0 3]
                 (tick_at 5000 False 3 12 0 4) (tick_at 5100 False 3 12 0 4)
                 [tick_at 5200 False 3 12 0 4]
         @ [TaskDone True])
        (fst (run press_and_call (boot boot_ok)), InCall True)))) = EFFECT_SUCCESS
   \<and> errorRetryAttemptCount (fst (run
        (attempt (tick_at 2000 False 3 12 0 1)
                 [tick_at 3000 False 3 12 0 2, tick_at 4000 False 3 12 0 3]
                 (tick_at 5000 False 3 12 0 4) (tick_at 5100 False 3 12 0 4)
                 [tick_at 5200 False 3 12 0 4]
         @ [TaskDone True, Tick (tick_at 6000 False 3 12 0 5)])
        (fst (run press_and_call (boot boot_ok)), InCall True))) = 0"
proof -
  have start: "currentState (fst (run press_and_call (boot boot_ok))) = API_CONNECTING"
      "apiTaskHandle (fst (run press_and_call (boot boot_ok)))"
      "errorRetryAttemptCount (fst (run press_and_call (boot boot_ok))) = 0"
    by (simp_all add: in_flight_state initial_globals_def)
  have w1: "waiting (tick_at 2000 False 3 12 0 1)
        [tick_at 3000 False 3 12 0 2, tick_at 4000 False 3 12 0 3]"
    by (simp add: waiting_def quiet_tick_at) (simp add: tick_at_def API_UPDATE_RETRY_INTERVAL_MS_def)
  have c1: "allQuiet [tick_at 5200 False 3 12 0 4]"
    by (simp add: allQuiet_def quiet_tick_at)
  have e: "waiting f []" "allQuiet []" for f
    by (simp_all add: waiting_def allQuiet_def)
  have q1: "quiet (tick_at 2000 False 3 12 0 1)" "quiet (tick_at 5000 False 3 12 0 4)"
      "quiet (tick_at 5100 False 3 12 0 4)"
    by (simp_all add: quiet_tick_at)
  have q2: "quiet (tick_at 6000 False 3 12 0 5)" "quiet (tick_at 9000 False 3 12 0 8)"
      "quiet (tick_at 9100 False 3 12 0 8)"
    by (simp_all add: quiet_tick_at)
  have q3: "quiet (tick_at 10000 False 3 12 0 9)" "quiet (tick_at 13000 False 3 12 0 12)"
      "quiet (tick_at 13100 False 3 12 0 12)"
    by (simp_all add: quiet_tick_at)
  have q4: "quiet (tick_at 14000 False 3 12 0 13)"
    by (simp add: quiet_tick_at)
  have gaps: "millisLoop (tick_at 5000 False 3 12 0 4) - millisLoop (tick_at 2000 False 3 12 0 1)
        \<ge> API_UPDATE_RETRY_INTERVAL_MS"
      "millisLoop (tick_at 9000 False 3 12 0 8) - millisLoop (tick_at 6000 False 3 12 0 5)
        \<ge> API_UPDATE_RETRY_INTERVAL_MS"
      "millisLoop (tick_at 13000 False 3 12 0 12) - millisLoop (tick_at 10000 False 3 12 0 9)
        \<ge> API_UPDATE_RETRY_INTERVAL_MS"
    by (simp_all add: tick_at_def API_UPDATE_RETRY_INTERVAL_MS_def)
  show ?thesis
    using start(1,3) w1
      bounded_retries [OF start q1 w1 c1 q2 e q3 e q4 gaps,
        of True "tick_at 6000 False 3 12 0 5"]
    by blast
qed

text \<open>
  The counterexample to claim C2 as stated: after three failed attempts, each followed by
  3000 ms in \<open>ERROR_RETRYING\<close>, the device is in \<open>API_REQUEST_PENDING\<close> for the third retry,
  not in \<open>ERROR_FAILED\<close>.
\<close>

theorem three_failures_not_failed:
  "currentState (fst (run three_failures (boot boot_ok))) = API_REQUEST_PENDING
   \<and> currentState (fst (run three_failures (boot boot_ok))) \<noteq> ERROR_FAILED"
  by (simp add: eval_simps)

section \<open>The daily reset\<close>

text \<open>
  Only the reset block writes \<open>midnightResetExecuted\<close> and \<open>lastResetDay\<close>, so what a pass does
  to them depends on the clock alone.
\<close>

lemma beforeReset_tracker:
  "midnightResetExecuted (beforeReset e s) = midnightResetExecuted s"
  "lastResetDay (beforeReset e s) = lastResetDay s"
  by (simp_all add: before_defs Let_def split: option.splits)

lemma resetDue_beforeReset: "resetDue e (beforeReset e s) = resetDue e s"
  by (simp add: resetDue_def beforeReset_tracker)

lemma loop_tracker:
  "midnightResetExecuted (loop e s)
     = (if wifiConnected e \<and> isTimeSet e then resetWindow e else midnightResetExecuted s)"
  "lastResetDay (loop e s) = (if resetDue e s then getDay e else lastResetDay s)"
  using beforeReset_tracker [of e s]
  by (auto simp add: loop_def midnightReset_def resetDue_def resetWindow_def Let_def)

lemma runTicks_append: "runTicks (xs @ ys) s = runTicks ys (runTicks xs s)"
  by (induction xs arbitrary: s) simp_all

lemma resetFires_append:
  "resetFires (xs @ ys) s = resetFires xs s + resetFires ys (runTicks xs s)"
  by (induction xs arbitrary: s) simp_all

lemma fires_outside_window:
  "\<forall>e\<in>set es. \<not> resetWindow e \<Longrightarrow> resetFires es s = 0"
  by (induction es arbitrary: s) (simp_all add: resetDue_def beforeReset_tracker)

lemma flag_cleared_outside_window:
  "es \<noteq> [] \<Longrightarrow> \<forall>e\<in>set es. wifiConnected e \<and> isTimeSet e \<and> \<not> resetWindow e \<Longrightarrow>
   \<not> midnightResetExecuted (runTicks es s)"
proof (induction es arbitrary: s)
  case Nil
  then show ?case by simp
next
  case (Cons e es)
  show ?case
  proof (cases "es = []")
    case True
    with Cons.prems show ?thesis by (simp add: loop_tracker)
  next
    case False
    with Cons show ?thesis by simp
  qed
qed

lemma window_run:
  assumes "\<forall>e\<in>set es. wifiConnected e \<and> isTimeSet e \<and> resetWindow e \<and> getDay e = d"
  shows "resetFires es s
           = (if es \<noteq> [] \<and> (\<not> midnightResetExecuted s \<or> lastResetDay s \<noteq> d) then 1 else 0)"
    and "es \<noteq> [] \<Longrightarrow> midnightResetExecuted (runTicks es s) \<and> lastResetDay (runTicks es s) = d"
  using assms
proof (induction es arbitrary: s)
  case Nil
  { case 1 show ?case by simp }
  { case 2 then show ?case by simp }
next
  case (Cons e es)
  { case 1
    have a: "midnightResetExecuted (loop e s)" "lastResetDay (loop e s) = d"
      using 1 by (auto simp add: loop_tracker resetDue_def)
    have "resetFires es (loop e s) = 0"
      using Cons.IH(1) [of "loop e s"] 1 a by simp
    then show ?case using 1 by (simp add: resetDue_def beforeReset_tracker) }
  { case 2
    have a: "midnightResetExecuted (loop e s)" "lastResetDay (loop e s) = d"
      using 2 by (auto simp add: loop_tracker resetDue_def)
    show ?case
    proof (cases "es = []")
      case True
      with a show ?thesis by simp
    next
      case False
      with Cons.IH(2) [of "loop e s"] 2 show ?thesis by simp
    qed }
qed

lemma armed_no_fire:
  assumes "midnightResetExecuted s" "lastResetDay s = d"
    and "\<forall>e\<in>set es. resetWindow e \<and> getDay e = d"
  shows "resetFires es s = 0"
  using assms
proof (induction es arbitrary: s)
  case Nil
  then show ?case by simp
next
  case (Cons e es)
  have nd: "\<not> resetDue e s"
    using Cons.prems by (simp add: resetDue_def)
  have a: "midnightResetExecuted (loop e s)" "lastResetDay (loop e s) = d"
    using Cons.prems nd by (simp_all add: loop_tracker)
  have "resetFires es (loop e s) = 0"
    using Cons.IH [OF a] Cons.prems(3) by simp
  then show ?case using nd by (simp add: resetDue_beforeReset)
qed

lemma armed_stays:
  assumes "midnightResetExecuted s" "lastResetDay s = d"
    and "\<forall>e\<in>set es. resetWindow e \<and> getDay e = d"
  shows "midnightResetExecuted (runTicks es s) \<and> lastResetDay (runTicks es s) = d"
  using assms
proof (induction es arbitrary: s)
  case Nil
  then show ?case by simp
next
  case (Cons e es)
  have nd: "\<not> resetDue e s"
    using Cons.prems by (simp add: resetDue_def)
  have a: "midnightResetExecuted (loop e s)" "lastResetDay (loop e s) = d"
    using Cons.prems nd by (simp_all add: loop_tracker)
  show ?case
    using Cons.IH [OF a] Cons.prems(3) by simp
qed

lemma outside_keeps_day:
  "\<forall>e\<in>set es. \<not> resetWindow e \<Longrightarrow> lastResetDay (runTicks es s) = lastResetDay s"
  by (induction es arbitrary: s) (simp_all add: loop_tracker resetDue_def)

lemma window_fires_le_1:
  assumes "\<forall>e\<in>set es. resetWindow e \<and> getDay e = d"
  shows "resetFires es s \<le> 1"
  using assms
proof (induction es arbitrary: s)
  case Nil
  then show ?case by simp
next
  case (Cons e es)
  show ?case
  proof (cases "resetDue e s")
    case True
    then have a: "midnightResetExecuted (loop e s)" "lastResetDay (loop e s) = d"
      using Cons.prems by (simp_all add: loop_tracker resetDue_def)
    have "resetFires es (loop e s) = 0"
      using armed_no_fire [OF a] Cons.prems by simp
    then show ?thesis by (simp add: resetDue_beforeReset)
  next
    case False
    have "resetFires es (loop e s) \<le> 1"
      using Cons.IH [of "loop e s"] Cons.prems by simp
    then show ?thesis using False by (simp add: resetDue_beforeReset)
  qed
qed

lemma day_fires_le_1:
  assumes "\<forall>e\<in>set bef. \<not> resetWindow e"
    and "\<forall>e\<in>set dur. resetWindow e \<and> getDay e = d"
    and "\<forall>e\<in>set aft. \<not> resetWindow e"
  shows "resetFires (bef @ dur @ aft) s \<le> 1"
  using window_fires_le_1 [OF assms(2), of "runTicks bef s"]
  by (simp add: resetFires_append fires_outside_window assms(1,3))

lemma window_ticks_ok:
  "\<forall>e\<in>set (window_ticks d).
      wifiConnected e \<and> isTimeSet e \<and> resetWindow e \<and> getDay e = d"
  by (simp add: window_ticks_def tick_at_def resetWindow_def)

text \<open>
  Claim C4, as amended. Over the passes of one day value whose clock goes through the
  reset window once (passes before it, passes inside it, passes after it), the reset fires
  at most once, whatever the connectivity. With WiFi connected and the clock synchronised,
  and from any state: at least one pass outside the window followed by at least one pass
  inside it (the clock crossing from 15:00:59 to 15:01:09) fire the reset exactly once.
  Further passes inside the window on the same day value, and passes outside the window
  after them, then fire it zero times, and the next pass inside the window with another
  day value, WiFi connected and the clock synchronised, fires it again.
\<close>

theorem reset_once_per_day:
  assumes day: "\<forall>e\<in>set bef. \<not> resetWindow e"
      "\<forall>e\<in>set dur. resetWindow e \<and> getDay e = d'"
      "\<forall>e\<in>set aft. \<not> resetWindow e"
    and pre: "pre \<noteq> []" "\<forall>e\<in>set pre. wifiConnected e \<and> isTimeSet e \<and> \<not> resetWindow e"
    and win: "win \<noteq> []"
      "\<forall>e\<in>set win. wifiConnected e \<and> isTimeSet e \<and> resetWindow e \<and> getDay e = d"
    and again: "\<forall>e\<in>set again. resetWindow e \<and> getDay e = d"
      "\<forall>e\<in>set rest. \<not> resetWindow e"
    and nxt: "wifiConnected n \<and> isTimeSet n \<and> resetWindow n" "getDay n \<noteq> d"
  shows "resetFires (bef @ dur @ aft) s' \<le> 1
       \<and> resetFires (pre @ win) s = 1
       \<and> resetFires (again @ rest) (runTicks (pre @ win) s) = 0
       \<and> resetFires [n] (runTicks (pre @ win @ again @ rest) s) = 1"
proof -
  have d1: "resetFires (bef @ dur @ aft) s' \<le> 1"
    using day by (rule day_fires_le_1)
  have p0: "resetFires pre s = 0"
    using pre(2) by (simp add: fires_outside_window)
  have p1: "\<not> midnightResetExecuted (runTicks pre s)"
    using pre by (rule flag_cleared_outside_window)
  have w1: "resetFires win (runTicks pre s) = 1"
    using window_run(1) [OF win(2), of "runTicks pre s"] win(1) p1 by simp
  have armed: "midnightResetExecuted (runTicks (pre @ win) s)"
      "lastResetDay (runTicks (pre @ win) s) = d"
    using window_run(2) [OF win(2) win(1), of "runTicks pre s"] by (simp_all add: runTicks_append)
  have a0: "resetFires again (runTicks (pre @ win) s) = 0"
    using armed again(1) by (rule armed_no_fire)
  have a1: "resetFires rest (runTicks again (runTicks (pre @ win) s)) = 0"
    using again(2) by (simp add: fires_outside_window)
  have "lastResetDay (runTicks again (runTicks (pre @ win) s)) = d"
    using armed_stays [OF armed again(1)] by simp
  then have armed': "lastResetDay (runTicks (pre @ win @ again @ rest) s) = d"
    using outside_keeps_day [OF again(2), of "runTicks again (runTicks (pre @ win) s)"]
    by (simp add: runTicks_append)
  have n1: "resetFires [n] (runTicks (pre @ win @ again @ rest) s) = 1"
    using nxt armed' by (simp add: resetDue_def beforeReset_tracker)
  show ?thesis using d1 p0 w1 a0 a1 n1 by (simp add: resetFires_append)
qed

theorem reset_once_per_day_witness:
  "resetFires (before_window 3 @ window_ticks 3 @ after_window 3) initial_globals \<le> 1
   \<and> resetFires (before_window 3 @ window_ticks 3) initial_globals = 1
   \<and> resetFires (window_ticks 3 @ after_window 3)
        (runTicks (before_window 3 @ window_ticks 3) initial_globals) = 0
   \<and> resetFires [tick_at 86460000 False 4 15 1 0]
        (runTicks (before_window 3 @ window_ticks 3 @ window_ticks 3 @ after_window 3)
           initial_globals) = 1"
proof -
  have pre: "before_window 3 \<noteq> []"
      "\<forall>e\<in>set (before_window 3). wifiConnected e \<and> isTimeSet e \<and> \<not> resetWindow e"
    by (simp_all add: before_window_def tick_at_def resetWindow_def)
  have bef: "\<forall>e\<in>set (before_window 3). \<not> resetWindow e"
    using pre(2) by simp
  have dur: "\<forall>e\<in>set (window_ticks 3). resetWindow e \<and> getDay e = 3"
    using window_ticks_ok [of 3] by simp
  have aft: "\<forall>e\<in>set (after_window 3). \<not> resetWindow e"
    by (simp add: after_window_def tick_at_def resetWindow_def)
  have win: "window_ticks 3 \<noteq> []"
    by (simp add: window_ticks_def)
  have nxt: "wifiConnected (tick_at 86460000 False 4 15 1 0) \<and> isTimeSet (tick_at 86460000 False 4 15 1 0)
        \<and> resetWindow (tick_at 86460000 False 4 15 1 0)"
      "getDay (tick_at 86460000 False 4 15 1 0) \<noteq> 3"
    by (simp_all add: tick_at_def resetWindow_def)
  show ?thesis
    by (rule reset_once_per_day [OF bef dur aft pre win window_ticks_ok dur aft nxt])
qed

text \<open>
  The counterexample to claim C4 as stated: the clock of day 3 crosses the window and
  reaches 15:01:10, which clears \<open>midnightResetExecuted\<close>; set back to 15:01:00 on the same
  day, it makes the reset fire a second time.
\<close>

theorem reset_fires_twice_same_day:
  "resetFires (before_window 3 @ window_ticks 3 @ after_window 3) initial_globals = 1
   \<and> resetFires (replay_ticks 3)
        (runTicks (before_window 3 @ window_ticks 3 @ after_window 3) initial_globals) = 1
   \<and> resetFires (before_window 3 @ window_ticks 3 @ after_window 3 @ replay_ticks 3)
        initial_globals = 2"
  by (simp add: before_window_def window_ticks_def after_window_def replay_ticks_def
      initial_globals_def tick_at_def loop_defs const_defs resetDue_def resetWindow_def)

section \<open>Leaving the failed state\<close>

lemma midnightReset_not_due:
  "\<not> resetDue e s \<Longrightarrow> currentState (midnightReset e s) = currentState s"
  by (auto simp add: midnightReset_def resetDue_def resetWindow_def Let_def)

lemma beforeReset_failed:
  assumes "currentState s = ERROR_FAILED"
    and "\<not> (btnWasPressed e \<and> apiTaskHandle s \<and> \<not> apiRequestPending s)"
  shows "currentState (beforeReset e s) = ERROR_FAILED"
proof -
  have p: "currentState (processApiResult e s) = ERROR_FAILED"
      "apiTaskHandle (processApiResult e s) = apiTaskHandle s"
      "apiRequestPending (processApiResult e s) = apiRequestPending s"
    using assms(1) by (simp_all add: processApiResult_def)
  have "processButton e (processApiResult e s) = processApiResult e s"
    using assms(2) p by (auto simp add: processButton_def)
  then show ?thesis
    using p by (simp add: beforeReset_def handoff_def successExit_def retryExit_def)
qed

text \<open>
  Claim C5, as amended. The claim says that only a button press moves the device out of
  \<open>ERROR_FAILED\<close>. The daily reset does so too: its block has no test on the state. What
  holds is that a pass leaves \<open>ERROR_FAILED\<close> only if the button block accepted a press in
  that pass or the daily reset was due in it; no other block leaves the state.
\<close>

theorem failed_exit:
  assumes "currentState s = ERROR_FAILED" and "currentState (loop e s) \<noteq> ERROR_FAILED"
  shows "(btnWasPressed e \<and> apiTaskHandle s \<and> \<not> apiRequestPending s) \<or> resetDue e s"
proof (rule ccontr)
  assume n: "\<not> ((btnWasPressed e \<and> apiTaskHandle s \<and> \<not> apiRequestPending s) \<or> resetDue e s)"
  from assms(1) n have "currentState (beforeReset e s) = ERROR_FAILED"
    by (intro beforeReset_failed) blast+
  moreover from n have "\<not> resetDue e (beforeReset e s)"
    by (simp add: resetDue_beforeReset)
  ultimately have "currentState (loop e s) = ERROR_FAILED"
    by (simp add: loop_def midnightReset_not_due)
  with assms(2) show False by simp
qed

theorem failed_exit_witness:
  "currentState (fst (run fail_and_give_up (boot boot_ok))) = ERROR_FAILED
   \<and> currentState (loop late_reset_tick (fst (run fail_and_give_up (boot boot_ok)))) \<noteq> ERROR_FAILED
   \<and> ((btnWasPressed late_reset_tick \<and> apiTaskHandle (fst (run fail_and_give_up (boot boot_ok)))
        \<and> \<not> apiRequestPending (fst (run fail_and_give_up (boot boot_ok))))
      \<or> resetDue late_reset_tick (fst (run fail_and_give_up (boot boot_ok))))"
proof -
  have a: "currentState (fst (run fail_and_give_up (boot boot_ok))) = ERROR_FAILED"
    by (simp add: eval_simps)
  have b: "currentState (loop late_reset_tick (fst (run fail_and_give_up (boot boot_ok)))) \<noteq> ERROR_FAILED"
    by (simp add: eval_simps)
  show ?thesis using a b failed_exit [OF a b] by blast
qed

text \<open>
  The counterexample to claim C5 as stated: the device is in \<open>ERROR_FAILED\<close>, the button is
  not pressed, the reset instant comes, and the device is in \<open>API_REQUEST_PENDING\<close>.
\<close>

theorem reset_leaves_failed:
  "currentState (fst (run fail_and_give_up (boot boot_ok))) = ERROR_FAILED
   \<and> \<not> btnWasPressed late_reset_tick
   \<and> currentState (fst (run (fail_and_give_up @ [Tick late_reset_tick]) (boot boot_ok)))
       = API_REQUEST_PENDING"
  by (simp add: eval_simps)

section \<open>The reset while a request is in flight\<close>

text \<open>
  Claim C1 fails on the code. The claim says that the reset does not fire while a request
  is in flight. At the schedule below the device is in \<open>API_CONNECTING\<close> and the worker is
  in its call for the target "done"; the pass at 15:01:00 fires the reset all the same: the
  state becomes \<open>API_REQUEST_PENDING\<close>, the target becomes "not done" and the reset is marked
  as executed, so nothing is deferred. When the call then succeeds the device ends in
  \<open>TASK_PENDING\<close>, although the only submission made was for "done".
\<close>

theorem reset_fires_while_connecting:
  "currentState (fst (run press_before_reset (boot boot_ok))) = API_CONNECTING
   \<and> snd (run press_before_reset (boot boot_ok)) = InCall True
   \<and> newTargetTaskState (fst (run press_before_reset (boot boot_ok))) = True
   \<and> currentState (fst (run (press_before_reset @ [Tick reset_tick]) (boot boot_ok)))
       = API_REQUEST_PENDING
   \<and> newTargetTaskState (fst (run (press_before_reset @ [Tick reset_tick]) (boot boot_ok))) = False
   \<and> midnightResetExecuted (fst (run (press_before_reset @ [Tick reset_tick]) (boot boot_ok)))
   \<and> currentState (fst (run reset_during_call (boot boot_ok))) = TASK_PENDING"
  by (simp add: eval_simps)

text \<open>
  Claim C6 fails on the code. With \<open>apiRequestPending\<close> set and the worker in its call, the
  pass at the reset instant still executes one assignment \<^verbatim>\<open>apiRequestPending = true\<close>. When
  the call ends before the next pass, its outcome is dropped by the result block (the state
  is \<open>API_REQUEST_PENDING\<close>) and the request of the reset never reaches the worker: the
  device stays in \<open>API_REQUEST_PENDING\<close> with nothing pending. An outcome is lost without
  any reset as well: the retry block leaves the state \<open>API_REQUEST_PENDING\<close> for one pass,
  and a call that ends before that pass has its outcome dropped.
\<close>

theorem reset_enqueues_over_call_in_flight:
  "apiRequestPending (fst (run press_before_reset (boot boot_ok)))
   \<and> snd (run press_before_reset (boot boot_ok)) = InCall True
   \<and> enqueues reset_tick (fst (run press_before_reset (boot boot_ok))) = 1
   \<and> currentState (fst (run (press_before_reset @ [Tick reset_tick, TaskDone True, Tick after_reset_tick])
                            (boot boot_ok))) = API_REQUEST_PENDING
   \<and> \<not> apiRequestPending (fst (run (press_before_reset @ [Tick reset_tick, TaskDone True,
                                       Tick after_reset_tick]) (boot boot_ok)))
   \<and> \<not> apiResultReceived (fst (run (press_before_reset @ [Tick reset_tick, TaskDone True,
                                       Tick after_reset_tick]) (boot boot_ok)))
   \<and> snd (run (press_before_reset @ [Tick reset_tick, TaskDone True, Tick after_reset_tick])
              (boot boot_ok)) = Idle
   \<and> currentState (fst (run early_result (boot boot_ok))) = API_REQUEST_PENDING
   \<and> \<not> apiRequestPending (fst (run early_result (boot boot_ok)))
   \<and> \<not> apiResultReceived (fst (run early_result (boot boot_ok)))
   \<and> snd (run early_result (boot boot_ok)) = Idle"
  by (simp add: eval_simps enqueues_def Let_def)

section \<open>The timeout-window firmware\<close>

lemma wifiUp_v_boot_ok: "wifiUp_v boot_ok" by (simp add: wifiUp_v_def boot_ok_def)

lemma started_v_state:
  "setup_v boot_ok initial_globals_v
     = initial_globals_v\<lparr> apiTaskHandle := True, currentState := TASK_PENDING \<rparr>"
  by (simp add: setup_v_def wifiUp_v_boot_ok) (simp add: boot_ok_def)

lemma retrying_v_state:
  "retrying_v = \<lparr> currentState = ERROR_RETRYING, animationStartTime = 2000,
      apiTaskHandle = True, apiRequestPending = False, newTargetTaskState = True,
      apiResultSuccess = False, apiResultReceived = False, midnightResetExecuted = False,
      lastResetDay = - 1 \<rparr>"
  unfolding retrying_v_def started_v_state
  by (simp add: initial_globals_v_def variant_defs tick_at_def apiTask_done_def)

lemma not_due_fields_v:
  assumes "\<not> resetDue e s"
  shows "currentState (midnightReset_v e s) = currentState s"
    and "apiRequestPending (midnightReset_v e s) = apiRequestPending s"
    and "animationStartTime (midnightReset_v e s) = animationStartTime s"
  using assms by (auto simp add: midnightReset_v_def resetDue_def resetWindow_def Let_def)

lemma failure_opens_window:
  assumes "\<not> btnWasPressed e" "\<not> resetDue e s"
    and "currentState s = API_CONNECTING" "apiResultReceived s" "\<not> apiResultSuccess s"
  shows "currentState (loop_v e s) = ERROR_RETRYING"
    and "animationStartTime (loop_v e s) = millisLoop e"
    and "apiRequestPending (loop_v e s) = apiRequestPending s"
proof -
  let ?p = "retryTimeout_v e (successExit_v e (handoff e (processButton_v e (processApiResult_v e s))))"
  have p: "?p = s\<lparr> currentState := ERROR_RETRYING, animationStartTime := millisLoop e,
        apiResultReceived := False \<rparr>"
    using assms(1,3,4,5)
    by (simp add: processApiResult_v_def processButton_v_def handoff_def successExit_v_def
        retryTimeout_v_def)
  have "\<not> resetDue e ?p"
    using assms(2) by (simp add: p resetDue_def)
  then show "currentState (loop_v e s) = ERROR_RETRYING"
    and "animationStartTime (loop_v e s) = millisLoop e"
    and "apiRequestPending (loop_v e s) = apiRequestPending s"
    unfolding loop_v_def by (simp_all add: not_due_fields_v) (simp_all add: p)
qed

lemma window_pass:
  assumes "\<not> btnWasPressed e" "\<not> resetDue e s" "currentState s = ERROR_RETRYING"
  shows "currentState (loop_v e s)
           = (if millisLoop e - animationStartTime s > 5000 then ERROR_FAILED else ERROR_RETRYING)"
    and "animationStartTime (loop_v e s) = animationStartTime s"
    and "apiRequestPending (loop_v e s) = apiRequestPending s"
proof -
  let ?p = "retryTimeout_v e (successExit_v e (handoff e (processButton_v e (processApiResult_v e s))))"
  have p: "?p = s\<lparr> currentState := (if millisLoop e - animationStartTime s > 5000 then ERROR_FAILED
                                       else ERROR_RETRYING),
        apiResultReceived := False \<rparr>"
    using assms(1,3)
    by (simp add: processApiResult_v_def processButton_v_def handoff_def successExit_v_def
        retryTimeout_v_def)
  have "\<not> resetDue e ?p"
    using assms(2) by (simp add: p resetDue_def)
  then show "currentState (loop_v e s)
           = (if millisLoop e - animationStartTime s > 5000 then ERROR_FAILED else ERROR_RETRYING)"
    and "animationStartTime (loop_v e s) = animationStartTime s"
    and "apiRequestPending (loop_v e s) = apiRequestPending s"
    unfolding loop_v_def by (simp_all add: not_due_fields_v) (simp_all add: p)
qed

text \<open>
  Claim C8, as amended, for the timeout-window firmware. A pass without button press and
  without the daily reset being due that sees a failed result enters \<open>ERROR_RETRYING\<close> and
  starts the window at the time of that pass. Such a pass in \<open>ERROR_RETRYING\<close> ends in
  \<open>ERROR_FAILED\<close> when more than 5000 ms have passed since, and stays in \<open>ERROR_RETRYING\<close>
  otherwise; it moves neither the start of the window nor \<open>apiRequestPending\<close>, so nothing
  is submitted again. Inside the window the state is left only by a pass with the button
  pressed or with the daily reset due.
\<close>

theorem timeout_window:
  "(\<not> btnWasPressed e \<and> \<not> resetDue e s
      \<and> currentState s = API_CONNECTING \<and> apiResultReceived s \<and> \<not> apiResultSuccess s
      \<longrightarrow> currentState (loop_v e s) = ERROR_RETRYING
        \<and> animationStartTime (loop_v e s) = millisLoop e
        \<and> apiRequestPending (loop_v e s) = apiRequestPending s)
   \<and> (\<not> btnWasPressed e \<and> \<not> resetDue e s \<and> currentState s = ERROR_RETRYING
      \<longrightarrow> currentState (loop_v e s)
            = (if millisLoop e - animationStartTime s > 5000 then ERROR_FAILED
               else ERROR_RETRYING)
        \<and> animationStartTime (loop_v e s) = animationStartTime s
        \<and> apiRequestPending (loop_v e s) = apiRequestPending s)
   \<and> (currentState s = ERROR_RETRYING \<and> millisLoop e - animationStartTime s \<le> 5000
        \<and> currentState (loop_v e s) \<noteq> ERROR_RETRYING
      \<longrightarrow> btnWasPressed e \<or> resetDue e s)"
proof -
  have "currentState (loop_v e s) = ERROR_RETRYING"
    if "currentState s = ERROR_RETRYING" "millisLoop e - animationStartTime s \<le> 5000"
      "\<not> btnWasPressed e" "\<not> resetDue e s"
  proof -
    have "\<not> millisLoop e - animationStartTime s > 5000"
      using that(2) by (simp add: not_less)
    then show ?thesis using window_pass(1) [OF that(3,4,1)] by simp
  qed
  then have "currentState s = ERROR_RETRYING \<and> millisLoop e - animationStartTime s \<le> 5000
        \<and> currentState (loop_v e s) \<noteq> ERROR_RETRYING
      \<longrightarrow> btnWasPressed e \<or> resetDue e s"
    by blast
  then show ?thesis
    using failure_opens_window [of e s] window_pass [of e s] by blast
qed

theorem timeout_window_witness:
  "currentState (loop_v (tick_at 2000 False 3 12 0 1)
      (initial_globals_v\<lparr> currentState := API_CONNECTING, apiResultReceived := True \<rparr>))
     = ERROR_RETRYING
   \<and> currentState (loop_v (tick_at 7000 False 3 12 0 6)
      (initial_globals_v\<lparr> currentState := ERROR_RETRYING, animationStartTime := 2000 \<rparr>))
     = ERROR_RETRYING
   \<and> currentState (loop_v (tick_at 7001 False 3 12 0 6)
      (initial_globals_v\<lparr> currentState := ERROR_RETRYING, animationStartTime := 2000 \<rparr>))
     = ERROR_FAILED
   \<and> btnWasPressed (tick_at 3000 True 3 12 0 2)
   \<and> currentState (loop_v (tick_at 3000 True 3 12 0 2)
      (initial_globals_v\<lparr> currentState := ERROR_RETRYING, animationStartTime := 2000,
         apiTaskHandle := True \<rparr>))
     \<noteq> ERROR_RETRYING
   \<and> currentState retrying_v = ERROR_RETRYING
   \<and> resetDue reset_tick_v retrying_v
   \<and> currentState (loop_v reset_tick_v retrying_v) \<noteq> ERROR_RETRYING"
proof -
  have a: "currentState (loop_v (tick_at 3000 True 3 12 0 2)
      (initial_globals_v\<lparr> currentState := ERROR_RETRYING, animationStartTime := 2000,
         apiTaskHandle := True \<rparr>))
     \<noteq> ERROR_RETRYING"
    by (simp add: variant_defs tick_at_def initial_globals_v_def)
  have b: "currentState retrying_v = ERROR_RETRYING"
      "resetDue reset_tick_v retrying_v"
      "currentState (loop_v reset_tick_v retrying_v) \<noteq> ERROR_RETRYING"
    by (simp_all add: retrying_v_state reset_tick_v_def variant_defs tick_at_def resetDue_def
        resetWindow_def)
  have nd: "\<not> resetDue (tick_at t b 3 12 0 sec) s" for t b sec and s :: globals
    by (simp add: resetDue_def resetWindow_def tick_at_def)
  show ?thesis
    using a b
      timeout_window [of "tick_at 2000 False 3 12 0 1"
        "initial_globals_v\<lparr> currentState := API_CONNECTING, apiResultReceived := True \<rparr>"]
      timeout_window [of "tick_at 7000 False 3 12 0 6"
        "initial_globals_v\<lparr> currentState := ERROR_RETRYING, animationStartTime := 2000 \<rparr>"]
      timeout_window [of "tick_at 7001 False 3 12 0 6"
        "initial_globals_v\<lparr> currentState := ERROR_RETRYING, animationStartTime := 2000 \<rparr>"]
      timeout_window [of "tick_at 3000 True 3 12 0 2"
        "initial_globals_v\<lparr> currentState := ERROR_RETRYING, animationStartTime := 2000,
           apiTaskHandle := True \<rparr>"]
      timeout_window [of reset_tick_v retrying_v]
    by (simp add: nd initial_globals_v_def) (simp add: tick_at_def)
qed

text \<open>
  The counterexample to claim C8 as stated: the device is in \<open>ERROR_RETRYING\<close>, 1000 ms into
  the window, the button is not pressed, and the pass at 15:01:00 fires the daily reset: it
  sets \<open>apiRequestPending\<close> and leaves \<open>ERROR_RETRYING\<close> for \<open>API_REQUEST_PENDING\<close>.
\<close>

theorem reset_leaves_window:
  "currentState retrying_v = ERROR_RETRYING
   \<and> \<not> apiRequestPending retrying_v
   \<and> \<not> btnWasPressed reset_tick_v
   \<and> millisLoop reset_tick_v - animationStartTime retrying_v \<le> 5000
   \<and> currentState (loop_v reset_tick_v retrying_v) = API_REQUEST_PENDING
   \<and> apiRequestPending (loop_v reset_tick_v retrying_v)"
  by (simp add: retrying_v_state reset_tick_v_def variant_defs tick_at_def)

end
